theory Spec2Isabelle
  imports Main
begin

section \<open>Values exchanged between the orchestrator, the agents and the Chronicle\<close>

text \<open>
  The Python code passes JSON-like values around (dicts, lists, strings, numbers, None).
  They are modelled by \<open>jval\<close>; a dict is an association list in insertion order, looked
  up with \<open>map_of\<close>. Numbers are Python ints; floating point values, clock readings
  (\<open>timestamp\<close>, \<open>elapsed_seconds\<close>, \<open>total_duration_seconds\<close>, \<open>duration_seconds\<close>,
  \<open>started_at\<close>, \<open>completed_at\<close>) and everything that is only printed are left out.
\<close>

datatype jval =
    JNone
  | JBool bool
  | JInt int
  | JStr string
  | JList "jval list"
  | JDict "(string \<times> jval) list"

type_synonym dict = "(string \<times> jval) list"

text \<open>Exceptions, with what \<open>str(e)\<close> gives for each.\<close>

datatype exn =
    KeyError string
  | TypeError string
  | AttributeError string
  | IndexError string
  | Raised string

fun exn_str :: "exn \<Rightarrow> string" where
  "exn_str (KeyError k) = [CHR 0x27] @ k @ [CHR 0x27]"
| "exn_str (TypeError m) = m"
| "exn_str (AttributeError m) = m"
| "exn_str (IndexError m) = m"
| "exn_str (Raised m) = m"

fun type_name :: "jval \<Rightarrow> string" where
  "type_name JNone = ''NoneType''"
| "type_name (JBool _) = ''bool''"
| "type_name (JInt _) = ''int''"
| "type_name (JStr _) = ''str''"
| "type_name (JList _) = ''list''"
| "type_name (JDict _) = ''dict''"

text \<open>Truth value of a Python object, as \<open>if x\<close>, \<open>x or y\<close> and \<open>not x\<close> test it.\<close>

fun truthy :: "jval \<Rightarrow> bool" where
  "truthy JNone = False"
| "truthy (JBool b) = b"
| "truthy (JInt n) = (n \<noteq> 0)"
| "truthy (JStr s) = (s \<noteq> [])"
| "truthy (JList xs) = (xs \<noteq> [])"
| "truthy (JDict d) = (d \<noteq> [])"

text \<open>\<open>d.get(k, default)\<close> on a dict.\<close>

definition dict_get :: "dict \<Rightarrow> string \<Rightarrow> jval \<Rightarrow> jval" where
  "dict_get d k dflt = (case map_of d k of None \<Rightarrow> dflt | Some v \<Rightarrow> v)"

text \<open>\<open>x.get(k, default)\<close> on an arbitrary value: only a dict has the method.\<close>

fun py_get :: "jval \<Rightarrow> string \<Rightarrow> jval \<Rightarrow> exn + jval" where
  "py_get (JDict d) k dflt = Inr (dict_get d k dflt)"
| "py_get v k dflt =
     Inl (AttributeError ([CHR 0x27] @ type_name v @ [CHR 0x27] @ '' object has no attribute '' @
                          [CHR 0x27] @ ''get'' @ [CHR 0x27]))"

text \<open>\<open>x[k]\<close> with a string key \<open>k\<close>.\<close>

fun py_getitem :: "jval \<Rightarrow> string \<Rightarrow> exn + jval" where
  "py_getitem (JDict d) k = (case map_of d k of None \<Rightarrow> Inl (KeyError k) | Some v \<Rightarrow> Inr v)"
| "py_getitem (JList _) k = Inl (TypeError ''list indices must be integers or slices, not str'')"
| "py_getitem (JStr _) k =
     Inl (TypeError (''string indices must be integers, not '' @ [CHR 0x27] @ ''str'' @ [CHR 0x27]))"
| "py_getitem v k =
     Inl (TypeError ([CHR 0x27] @ type_name v @ [CHR 0x27] @ '' object is not subscriptable''))"

text \<open>\<open>len(x)\<close>.\<close>

fun py_len :: "jval \<Rightarrow> exn + nat" where
  "py_len (JStr s) = Inr (length s)"
| "py_len (JList xs) = Inr (length xs)"
| "py_len (JDict d) = Inr (length d)"
| "py_len v =
     Inl (TypeError (''object of type '' @ [CHR 0x27] @ type_name v @ [CHR 0x27] @ '' has no len()''))"

text \<open>\<open>x.values()\<close> and \<open>x.items()\<close>.\<close>

fun py_values :: "jval \<Rightarrow> exn + jval list" where
  "py_values (JDict d) = Inr (map snd d)"
| "py_values v =
     Inl (AttributeError ([CHR 0x27] @ type_name v @ [CHR 0x27] @ '' object has no attribute '' @
                          [CHR 0x27] @ ''values'' @ [CHR 0x27]))"

fun py_items :: "jval \<Rightarrow> exn + dict" where
  "py_items (JDict d) = Inr d"
| "py_items v =
     Inl (AttributeError ([CHR 0x27] @ type_name v @ [CHR 0x27] @ '' object has no attribute '' @
                          [CHR 0x27] @ ''items'' @ [CHR 0x27]))"

text \<open>
  Comparison of a value with an int literal: \<open>x < n\<close>, \<open>x > n\<close>, \<open>x >= n\<close>. A bool compares
  as 0 or 1; anything that is not a number raises TypeError.
\<close>

definition cmp_error :: "string \<Rightarrow> jval \<Rightarrow> exn" where
  "cmp_error opr v =
     TypeError ([CHR 0x27] @ opr @ [CHR 0x27] @ '' not supported between instances of '' @
                [CHR 0x27] @ type_name v @ [CHR 0x27] @ '' and '' @ [CHR 0x27] @ ''int'' @ [CHR 0x27])"

fun py_lt :: "jval \<Rightarrow> int \<Rightarrow> exn + bool" where
  "py_lt (JInt m) n = Inr (m < n)"
| "py_lt (JBool b) n = Inr ((if b then 1 else 0) < n)"
| "py_lt v n = Inl (cmp_error ''<'' v)"

fun py_gt :: "jval \<Rightarrow> int \<Rightarrow> exn + bool" where
  "py_gt (JInt m) n = Inr (m > n)"
| "py_gt (JBool b) n = Inr ((if b then 1 else 0) > n)"
| "py_gt v n = Inl (cmp_error ''>'' v)"

fun py_ge :: "jval \<Rightarrow> int \<Rightarrow> exn + bool" where
  "py_ge (JInt m) n = Inr (m \<ge> n)"
| "py_ge (JBool b) n = Inr ((if b then 1 else 0) \<ge> n)"
| "py_ge v n = Inl (cmp_error ''>='' v)"

text \<open>\<open>acc + x\<close> for an int accumulator, as \<open>sum\<close> computes it.\<close>

fun py_add :: "int \<Rightarrow> jval \<Rightarrow> exn + int" where
  "py_add acc (JInt m) = Inr (acc + m)"
| "py_add acc (JBool b) = Inr (acc + (if b then 1 else 0))"
| "py_add acc v =
     Inl (TypeError (''unsupported operand type(s) for +: '' @ [CHR 0x27] @ ''int'' @ [CHR 0x27] @
                     '' and '' @ [CHR 0x27] @ type_name v @ [CHR 0x27]))"

text \<open>Decimal rendering of an int, and \<open>sep.join(xs)\<close>.\<close>

fun show_nat :: "nat \<Rightarrow> string" where
  "show_nat n =
     (if n < 10 then [''0123456789'' ! n]
      else show_nat (n div 10) @ [''0123456789'' ! (n mod 10)])"

declare show_nat.simps [simp del]

definition show_int :: "int \<Rightarrow> string" where
  "show_int i = (if i < 0 then ''-'' @ show_nat (nat (- i)) else show_nat (nat i))"

fun join :: "string \<Rightarrow> string list \<Rightarrow> string" where
  "join sep [] = []"
| "join sep [x] = x"
| "join sep (x # y # ys) = x @ sep @ join sep (y # ys)"

section \<open>The Chronicle recorder\<close>

text \<open>
  An event is a dict with a \<open>type\<close> key, the fields of that type, and the
  \<open>sequence_number\<close> that \<open>_record_event\<close> adds. The constant
  \<open>chronicle_agent_version\<close> of a session start is left out.
\<close>

datatype event_body =
    SessionStart string string
      \<comment> \<open>feature_id, trigger\<close>
  | AgentAction string string string string jval dict
      \<comment> \<open>agent, action, input_summary, output_summary, duration_ms, metadata\<close>
  | Handoff string string string string
      \<comment> \<open>from_agent, to_agent, artifact, artifact_summary\<close>
  | Decision string string string "string list"
      \<comment> \<open>agent, decision, rationale, alternatives\<close>
  | Collaboration "string list" string string
      \<comment> \<open>agents, activity, result\<close>
  | Checkpoint string jval dict
      \<comment> \<open>stage, status, metrics\<close>
  | Issue string string string "string option" bool
      \<comment> \<open>agent, issue_type, description, resolution, resolved\<close>
  | SessionEnd string nat
      \<comment> \<open>final_status, total_events\<close>

record event =
  body :: event_body
  sequence_number :: nat

fun event_type :: "event_body \<Rightarrow> string" where
  "event_type (SessionStart _ _) = ''session_start''"
| "event_type (AgentAction _ _ _ _ _ _) = ''agent_action''"
| "event_type (Handoff _ _ _ _) = ''handoff''"
| "event_type (Decision _ _ _ _) = ''decision''"
| "event_type (Collaboration _ _ _) = ''collaboration''"
| "event_type (Checkpoint _ _ _) = ''checkpoint''"
| "event_type (Issue _ _ _ _ _) = ''issue''"
| "event_type (SessionEnd _ _) = ''session_end''"

record recorder =
  session_id :: "string option"
  event_log :: "event list"

text \<open>The recorder as \<open>__init__\<close> leaves it.\<close>

definition new_recorder :: recorder where
  "new_recorder = \<lparr>session_id = None, event_log = []\<rparr>"

text \<open>\<open>_record_event\<close>: number the event and append it.\<close>

definition record_event :: "event_body \<Rightarrow> recorder \<Rightarrow> recorder" where
  "record_event b r =
     r\<lparr>event_log := event_log r @ [\<lparr>body = b, sequence_number = length (event_log r) + 1\<rparr>]\<rparr>"

text \<open>\<open>start_session\<close>; \<open>stamp\<close> is the formatted clock reading.\<close>

definition start_session :: "string \<Rightarrow> string \<Rightarrow> string \<Rightarrow> recorder \<Rightarrow> recorder" where
  "start_session stamp feature_id trigger r =
     record_event (SessionStart feature_id trigger)
       (r\<lparr>session_id := Some (''session_'' @ stamp @ ''_'' @ feature_id), event_log := []\<rparr>)"

text \<open>\<open>_summarize_data\<close>.\<close>

fun summarize_data :: "jval \<Rightarrow> nat \<Rightarrow> string" where
  "summarize_data JNone max_length = ''None''"
| "summarize_data (JStr s) max_length =
     (if length s > max_length then take max_length s @ ''...'' else s)"
| "summarize_data (JDict d) max_length = ''Dict with keys: '' @ join '', '' (take 5 (map fst d))"
| "summarize_data (JList xs) max_length = ''List with '' @ show_nat (length xs) @ '' items''"
| "summarize_data (JBool b) max_length = take max_length (if b then ''True'' else ''False'')"
| "summarize_data (JInt i) max_length = take max_length (show_int i)"

definition record_agent_action ::
  "string \<Rightarrow> string \<Rightarrow> jval \<Rightarrow> jval \<Rightarrow> dict option \<Rightarrow> recorder \<Rightarrow> recorder" where
  "record_agent_action agent_name action input_data output_data metadata r =
     record_event
       (AgentAction agent_name action
          (summarize_data input_data 200)
          (summarize_data output_data 200)
          (case metadata of
             None \<Rightarrow> JNone
           | Some m \<Rightarrow> if m \<noteq> [] then dict_get m ''duration_ms'' JNone else JNone)
          (case metadata of None \<Rightarrow> [] | Some m \<Rightarrow> m))
       r"

definition record_handoff :: "string \<Rightarrow> string \<Rightarrow> string \<Rightarrow> string \<Rightarrow> recorder \<Rightarrow> recorder" where
  "record_handoff from_agent to_agent artifact_name artifact_summary r =
     record_event (Handoff from_agent to_agent artifact_name artifact_summary) r"

definition record_decision ::
  "string \<Rightarrow> string \<Rightarrow> string \<Rightarrow> string list option \<Rightarrow> recorder \<Rightarrow> recorder" where
  "record_decision agent_name decision rationale alternatives_considered r =
     record_event
       (Decision agent_name decision rationale
          (case alternatives_considered of None \<Rightarrow> [] | Some xs \<Rightarrow> xs))
       r"

definition record_collaboration :: "string list \<Rightarrow> string \<Rightarrow> string \<Rightarrow> recorder \<Rightarrow> recorder" where
  "record_collaboration agents activity result r =
     record_event (Collaboration agents activity result) r"

definition record_checkpoint :: "string \<Rightarrow> jval \<Rightarrow> dict option \<Rightarrow> recorder \<Rightarrow> recorder" where
  "record_checkpoint stage status metrics r =
     record_event
       (Checkpoint stage status (case metrics of None \<Rightarrow> [] | Some m \<Rightarrow> m))
       r"

definition record_issue ::
  "string \<Rightarrow> string \<Rightarrow> string \<Rightarrow> string option \<Rightarrow> recorder \<Rightarrow> recorder" where
  "record_issue agent_name issue_type description resolution r =
     record_event
       (Issue agent_name issue_type description resolution (resolution \<noteq> None))
       r"

subsection \<open>Report synthesis\<close>

text \<open>
  \<open>_generate_report\<close> buckets the log in one pass. \<open>agent_actions\<close> is a dict from agent
  name to that agent's events, here an association list in insertion order.
\<close>

record buckets =
  agent_actions :: "(string \<times> event list) list"
  handoffs :: "event list"
  decisions :: "event list"
  issues :: "event list"
  collaborations :: "event list"

definition add_action :: "string \<Rightarrow> event \<Rightarrow> (string \<times> event list) list \<Rightarrow> (string \<times> event list) list" where
  "add_action agent e aa =
     map (\<lambda>(k, es). if k = agent then (k, es @ [e]) else (k, es))
       (if agent \<notin> fst ` set aa then aa @ [(agent, [])] else aa)"

fun bucket_event :: "event \<Rightarrow> buckets \<Rightarrow> buckets" where
  "bucket_event e b =
     (case body e of
        AgentAction agent _ _ _ _ _ \<Rightarrow> b\<lparr>agent_actions := add_action agent e (agent_actions b)\<rparr>
      | Handoff _ _ _ _ \<Rightarrow> b\<lparr>handoffs := handoffs b @ [e]\<rparr>
      | Decision _ _ _ _ \<Rightarrow> b\<lparr>decisions := decisions b @ [e]\<rparr>
      | Issue _ _ _ _ _ \<Rightarrow> b\<lparr>issues := issues b @ [e]\<rparr>
      | Collaboration _ _ _ \<Rightarrow> b\<lparr>collaborations := collaborations b @ [e]\<rparr>
      | _ \<Rightarrow> b)"

fun bucket_log :: "event list \<Rightarrow> buckets \<Rightarrow> buckets" where
  "bucket_log [] b = b"
| "bucket_log (e # es) b = bucket_log es (bucket_event e b)"

definition empty_buckets :: buckets where
  "empty_buckets =
     \<lparr>agent_actions = [], handoffs = [], decisions = [], issues = [], collaborations = []\<rparr>"

text \<open>\<open>event.get("duration_ms")\<close>, \<open>event["action"]\<close> and the fields of an issue.\<close>

fun duration_ms :: "event \<Rightarrow> jval" where
  "duration_ms e = (case body e of AgentAction _ _ _ _ d _ \<Rightarrow> d | _ \<Rightarrow> JNone)"

fun action_name :: "event \<Rightarrow> string" where
  "action_name e = (case body e of AgentAction _ a _ _ _ _ \<Rightarrow> a | _ \<Rightarrow> [])"

fun agent_name :: "event \<Rightarrow> string" where
  "agent_name e =
     (case body e of
        AgentAction a _ _ _ _ _ \<Rightarrow> a
      | Decision a _ _ _ \<Rightarrow> a
      | Issue a _ _ _ _ \<Rightarrow> a
      | _ \<Rightarrow> [])"

fun is_resolved :: "event \<Rightarrow> bool" where
  "is_resolved e = (case body e of Issue _ _ _ _ r \<Rightarrow> r | _ \<Rightarrow> False)"

fun description :: "event \<Rightarrow> string" where
  "description e = (case body e of Issue _ _ d _ _ \<Rightarrow> d | _ \<Rightarrow> [])"

text \<open>
  \<open>_calculate_agent_stats\<close>. \<open>avg_duration_ms\<close>, a float quotient, is left out.
  \<open>sum_durations\<close> is \<open>sum(a.get("duration_ms", 0) for a in actions if a.get("duration_ms"))\<close>.
\<close>

record agent_stat =
  actions_count :: nat
  total_duration_ms :: int
  actions :: "string list"

fun sum_durations :: "int \<Rightarrow> event list \<Rightarrow> exn + int" where
  "sum_durations acc [] = Inr acc"
| "sum_durations acc (a # as) =
     (if truthy (duration_ms a)
      then (case py_add acc (duration_ms a) of
              Inl x \<Rightarrow> Inl x
            | Inr acc' \<Rightarrow> sum_durations acc' as)
      else sum_durations acc as)"

fun calculate_agent_stats ::
  "(string \<times> event list) list \<Rightarrow> (string \<times> agent_stat) list \<Rightarrow> exn + (string \<times> agent_stat) list" where
  "calculate_agent_stats [] stats = Inr stats"
| "calculate_agent_stats ((agent, acts) # rest) stats =
     (case sum_durations 0 acts of
        Inl x \<Rightarrow> Inl x
      | Inr total_duration \<Rightarrow>
          calculate_agent_stats rest
            (stats @ [(agent, \<lparr>actions_count = length acts, total_duration_ms = total_duration,
                               actions = map action_name (take 5 acts)\<rparr>)]))"

text \<open>
  \<open>_identify_bottlenecks\<close>. The entries carry a constant \<open>type\<close> and \<open>recommendation\<close>
  text, here the constructor.
\<close>

datatype bottleneck =
    LongExecution string string jval
      \<comment> \<open>agent, action, duration_ms\<close>
  | UnresolvedIssues nat "string list"
      \<comment> \<open>count, issues\<close>

fun long_actions :: "event list \<Rightarrow> bottleneck list \<Rightarrow> exn + bottleneck list" where
  "long_actions [] bs = Inr bs"
| "long_actions (e # es) bs =
     (if event_type (body e) = ''agent_action'' \<and> truthy (duration_ms e)
      then (case py_gt (duration_ms e) 60000 of
              Inl x \<Rightarrow> Inl x
            | Inr True \<Rightarrow>
                long_actions es
                  (bs @ [LongExecution (agent_name e) (action_name e) (duration_ms e)])
            | Inr False \<Rightarrow> long_actions es bs)
      else long_actions es bs)"

definition identify_bottlenecks :: "event list \<Rightarrow> exn + bottleneck list" where
  "identify_bottlenecks log =
     (case long_actions log [] of
        Inl x \<Rightarrow> Inl x
      | Inr bs \<Rightarrow>
          (let unresolved = filter (\<lambda>e. event_type (body e) = ''issue'' \<and> \<not> is_resolved e) log
           in Inr (if unresolved \<noteq> []
                   then bs @ [UnresolvedIssues (length unresolved) (map description unresolved)]
                   else bs)))"

text \<open>
  The report. The timeline, the handoff chain and the recommendations are renderings of
  the log into text; they are left out, and none of them can raise.
\<close>

record summary =
  total_events :: nat
  total_agents_involved :: nat
  total_handoffs :: nat
  total_decisions :: nat
  total_issues :: nat
  total_collaborations :: nat

record report =
  report_session_id :: "string option"
  summary :: summary
  agent_statistics :: "(string \<times> agent_stat) list"
  decision_log :: "event list"
  issues_encountered :: "event list"
  collaboration_patterns :: "event list"
  bottlenecks :: "bottleneck list"

definition generate_report :: "recorder \<Rightarrow> exn + report" where
  "generate_report r =
     (let b = bucket_log (event_log r) empty_buckets in
      case calculate_agent_stats (agent_actions b) [] of
        Inl x \<Rightarrow> Inl x
      | Inr stats \<Rightarrow>
          (case identify_bottlenecks (event_log r) of
             Inl x \<Rightarrow> Inl x
           | Inr bns \<Rightarrow>
               Inr \<lparr>report_session_id = session_id r,
                    summary = \<lparr>total_events = length (event_log r),
                               total_agents_involved = length (agent_actions b),
                               total_handoffs = length (handoffs b),
                               total_decisions = length (decisions b),
                               total_issues = length (issues b),
                               total_collaborations = length (collaborations b)\<rparr>,
                    agent_statistics = stats,
                    decision_log = decisions b,
                    issues_encountered = issues b,
                    collaboration_patterns = collaborations b,
                    bottlenecks = bns\<rparr>))"

text \<open>
  \<open>end_session\<close>: the \<open>session_end\<close> event is built (with \<open>len(self.event_log)\<close> read at
  that moment) and appended, then the report is generated. The recorder keeps the
  appended event also when report generation raises. Writing the report files is not
  modelled.
\<close>

definition end_session :: "string \<Rightarrow> recorder \<Rightarrow> recorder \<times> (exn + report)" where
  "end_session final_status r =
     (let r' = record_event (SessionEnd final_status (length (event_log r))) r
      in (r', generate_report r'))"

subsection \<open>Sequences of recorder calls\<close>

datatype call =
    StartSession string string string
  | RecordAgentAction string string jval jval "dict option"
  | RecordHandoff string string string string
  | RecordDecision string string string "string list option"
  | RecordCollaboration "string list" string string
  | RecordCheckpoint string jval "dict option"
  | RecordIssue string string string "string option"
  | EndSession string

fun apply_call :: "call \<Rightarrow> recorder \<Rightarrow> recorder" where
  "apply_call (StartSession stamp f t) r = start_session stamp f t r"
| "apply_call (RecordAgentAction a act i out m) r = record_agent_action a act i out m r"
| "apply_call (RecordHandoff f t a s) r = record_handoff f t a s r"
| "apply_call (RecordDecision a d ra alts) r = record_decision a d ra alts r"
| "apply_call (RecordCollaboration ags act res) r = record_collaboration ags act res r"
| "apply_call (RecordCheckpoint st status m) r = record_checkpoint st status m r"
| "apply_call (RecordIssue a t d res) r = record_issue a t d res r"
| "apply_call (EndSession st) r = fst (end_session st r)"

fun run_calls :: "call list \<Rightarrow> recorder \<Rightarrow> recorder" where
  "run_calls [] r = r"
| "run_calls (c # cs) r = run_calls cs (apply_call c r)"

fun is_start :: "call \<Rightarrow> bool" where
  "is_start (StartSession _ _ _) = True"
| "is_start _ = False"

subsection \<open>Notions used to state the recorder's properties\<close>

text \<open>A log is well numbered when its sequence numbers are 1, 2, ..., its length, in order.\<close>

definition well_numbered :: "event list \<Rightarrow> bool" where
  "well_numbered log = (map sequence_number log = [1..<Suc (length log)])"

text \<open>The number of events of one type, and the agents that appear in \<open>agent_action\<close> events.\<close>

definition count_type :: "string \<Rightarrow> event list \<Rightarrow> nat" where
  "count_type ty log = length (filter (\<lambda>e. event_type (body e) = ty) log)"

definition agents_acting :: "event list \<Rightarrow> string set" where
  "agents_acting log = agent_name ` {e \<in> set log. event_type (body e) = ''agent_action''}"

text \<open>
  The spec's bottleneck rule: an \<open>agent_action\<close> whose \<open>duration_ms\<close> is a number strictly
  greater than 60000. \<open>long_entry\<close> is the entry the detector writes for such an event.
\<close>

fun over_threshold :: "event \<Rightarrow> bool" where
  "over_threshold e =
     (case body e of AgentAction _ _ _ _ (JInt n) _ \<Rightarrow> n > 60000 | _ \<Rightarrow> False)"

fun is_long :: "bottleneck \<Rightarrow> bool" where
  "is_long (LongExecution _ _ _) = True"
| "is_long _ = False"

definition long_entry :: "event \<Rightarrow> bottleneck" where
  "long_entry e = LongExecution (agent_name e) (action_name e) (duration_ms e)"

text \<open>A session used to exercise the recorder: two timed actions and a handoff.\<close>

definition demo_session :: recorder where
  "demo_session =
     run_calls
       [StartSession ''t'' ''demo'' ''demo'',
        RecordAgentAction ''dev'' ''generate_code'' (JStr ''spec'') (JStr ''code'')
          (Some [(''duration_ms'', JInt 60001)]),
        RecordAgentAction ''qa'' ''test_feature'' (JStr ''code'') (JStr ''report'')
          (Some [(''duration_ms'', JInt 60000)]),
        RecordHandoff ''dev'' ''qa'' ''codebase'' ''20 files'']
       new_recorder"

text \<open>That session closed with status \<open>success\<close>, and the report \<open>end_session\<close> returns for it.\<close>

definition demo_closed :: recorder where
  "demo_closed = fst (end_session ''success'' demo_session)"

definition demo_report :: report where
  "demo_report =
     \<lparr>report_session_id = Some ''session_t_demo'',
      summary = \<lparr>total_events = 5, total_agents_involved = 2, total_handoffs = 1,
                 total_decisions = 0, total_issues = 0, total_collaborations = 0\<rparr>,
      agent_statistics =
        [(''dev'', \<lparr>actions_count = 1, total_duration_ms = 60001,
                    actions = [''generate_code'']\<rparr>),
         (''qa'', \<lparr>actions_count = 1, total_duration_ms = 60000,
                   actions = [''test_feature'']\<rparr>)],
      decision_log = [], issues_encountered = [], collaboration_patterns = [],
      bottlenecks = [LongExecution ''dev'' ''generate_code'' (JInt 60001)]\<rparr>"

section \<open>The pipeline orchestrator\<close>

subsection \<open>Agents, run record and orchestrator state\<close>

text \<open>
  The agents are outside the orchestrator. Each is called at most once in a run, so an
  environment gives, for each agent and its arguments, whether the call raises or what it
  returns. \<open>py_repr\<close> is Python's rendering of a list or dict inside an f-string, and the
  two stamps are the clock readings that name the run and the session.
\<close>

record env =
  pipeline_stamp :: string
  session_stamp :: string
  py_repr :: "jval \<Rightarrow> string"
  reverse_engineer_agent :: "string \<Rightarrow> exn + jval"
  web_scraper_agent :: "string \<Rightarrow> exn + jval"
  pm_agent :: "string \<Rightarrow> jval \<Rightarrow> exn + jval"
  dev_agent :: "jval \<Rightarrow> exn + jval"
  qa_agent :: "jval \<Rightarrow> exn + jval"
  deploy_agent :: "jval \<Rightarrow> exn + jval"

text \<open>\<open>str(v)\<close>, as an f-string renders a value.\<close>

fun py_str :: "env \<Rightarrow> jval \<Rightarrow> string" where
  "py_str env JNone = ''None''"
| "py_str env (JBool b) = (if b then ''True'' else ''False'')"
| "py_str env (JInt i) = show_int i"
| "py_str env (JStr s) = s"
| "py_str env v = py_repr env v"

text \<open>The run record \<open>results\<close>.\<close>

record results =
  pipeline_id :: string
  steps :: "(string \<times> dict) list"
  status :: "string option"
  feature_id :: "jval option"
  error :: "string option"
  chronicle :: "report option"

text \<open>
  The state a run works on: the Chronicle recorder, the run record, and two traces of what
  the run did to the outside: the agent calls made, each with its outcome, and the run
  records written to \<open>data/<pipeline_id>.json\<close>.
\<close>

record pstate =
  chron :: recorder
  results :: results
  invoked :: "(string \<times> (exn + jval)) list"
  written :: "results list"

text \<open>
  A statement maps a state to a new state and either a value or a raised exception; an
  exception ends the sequence it is raised in.
\<close>

type_synonym 'a prog = "pstate \<Rightarrow> (exn + 'a) \<times> pstate"

definition andthen :: "'a prog \<Rightarrow> ('a \<Rightarrow> 'b prog) \<Rightarrow> 'b prog" where
  "andthen m f s = (case m s of (Inl e, s') \<Rightarrow> (Inl e, s') | (Inr a, s') \<Rightarrow> f a s')"

definition yield :: "'a \<Rightarrow> 'a prog" where
  "yield a s = (Inr a, s)"

definition attempt :: "exn + 'a \<Rightarrow> 'a prog" where
  "attempt x s = (x, s)"

definition chronicle_do :: "(recorder \<Rightarrow> recorder) \<Rightarrow> unit prog" where
  "chronicle_do f s = (Inr (), s\<lparr>chron := f (chron s)\<rparr>)"

definition results_do :: "(results \<Rightarrow> results) \<Rightarrow> unit prog" where
  "results_do f s = (Inr (), s\<lparr>results := f (results s)\<rparr>)"

definition call_agent :: "string \<Rightarrow> exn + jval \<Rightarrow> jval prog" where
  "call_agent name outcome s = (outcome, s\<lparr>invoked := invoked s @ [(name, outcome)]\<rparr>)"

definition add_step :: "string \<Rightarrow> dict \<Rightarrow> unit prog" where
  "add_step name result = results_do (\<lambda>r. r\<lparr>steps := steps r @ [(name, result)]\<rparr>)"

definition read_results :: "results prog" where
  "read_results s = (Inr (results s), s)"

definition end_session_do :: "string \<Rightarrow> report prog" where
  "end_session_do final_status s =
     (case end_session final_status (chron s) of (r', rep) \<Rightarrow> (rep, s\<lparr>chron := r'\<rparr>))"

text \<open>Sequencing of expressions that may raise.\<close>

definition sbind :: "exn + 'a \<Rightarrow> ('a \<Rightarrow> exn + 'b) \<Rightarrow> exn + 'b" where
  "sbind x f = (case x of Inl e \<Rightarrow> Inl e | Inr a \<Rightarrow> f a)"

subsection \<open>The stage wrappers\<close>

text \<open>
  Each \<open>_run_..._agent\<close> calls its agent and builds a summary dict from the result by
  subscripting it, which raises when a key is missing.
\<close>

definition reverse_engineer_summary :: "jval \<Rightarrow> exn + dict" where
  "reverse_engineer_summary result =
     sbind (py_getitem result ''id'') (\<lambda>analysis_id.
     sbind (py_getitem result ''tech_stack'') (\<lambda>tech_stack.
     sbind (py_getitem result ''reconstructed_spec'') (\<lambda>spec.
     sbind (py_getitem result ''code_metrics'') (\<lambda>metrics.
     Inr [(''analysis_id'', analysis_id), (''tech_stack'', tech_stack),
          (''spec'', spec), (''metrics'', metrics)]))))"

definition run_reverse_engineer :: "env \<Rightarrow> string \<Rightarrow> dict prog" where
  "run_reverse_engineer env source =
     andthen (call_agent ''reverse_engineer'' (reverse_engineer_agent env source)) (\<lambda>result.
     attempt (reverse_engineer_summary result))"

definition web_scraper_summary :: "jval \<Rightarrow> exn + dict" where
  "web_scraper_summary result =
     sbind (py_getitem result ''id'') (\<lambda>research_id.
     sbind (sbind (py_getitem result ''competitors'') py_len) (\<lambda>competitors.
     sbind (sbind (py_getitem result ''trends'') py_len) (\<lambda>trends.
     sbind (sbind (py_getitem result ''pain_points'') py_len) (\<lambda>pain_points.
     sbind (py_getitem result ''insights'') (\<lambda>insights.
     Inr [(''research_id'', research_id), (''competitors_found'', JInt (int competitors)),
          (''trends_identified'', JInt (int trends)), (''pain_points'', JInt (int pain_points)),
          (''insights'', insights)])))))"

definition run_web_scraper :: "env \<Rightarrow> string \<Rightarrow> dict prog" where
  "run_web_scraper env topic =
     andthen (call_agent ''web_scraper'' (web_scraper_agent env topic)) (\<lambda>result.
     attempt (web_scraper_summary result))"

text \<open>\<open>sum(len(c["criteria"]) for c in ....values())\<close>.\<close>

fun sum_criteria :: "nat \<Rightarrow> jval list \<Rightarrow> exn + nat" where
  "sum_criteria acc [] = Inr acc"
| "sum_criteria acc (c # cs) =
     sbind (sbind (py_getitem c ''criteria'') py_len) (\<lambda>n. sum_criteria (acc + n) cs)"

definition pm_summary :: "jval \<Rightarrow> exn + dict" where
  "pm_summary result =
     sbind (py_getitem result ''id'') (\<lambda>fid.
     sbind (sbind (py_getitem result ''specification'') (\<lambda>sp. py_getitem sp ''title'')) (\<lambda>title.
     sbind (sbind (py_getitem result ''user_stories'') py_len) (\<lambda>stories.
     sbind (sbind (sbind (py_getitem result ''acceptance_criteria'') py_values) (sum_criteria 0))
       (\<lambda>criteria.
     Inr [(''feature_id'', fid), (''title'', title),
          (''user_stories_count'', JInt (int stories)),
          (''acceptance_criteria_count'', JInt (int criteria))]))))"

definition run_pm_agent :: "env \<Rightarrow> string \<Rightarrow> jval \<Rightarrow> dict prog" where
  "run_pm_agent env idea tech_stack =
     andthen (call_agent ''pm'' (pm_agent env idea tech_stack)) (\<lambda>result.
     attempt (pm_summary result))"

definition files_of :: "jval \<Rightarrow> string \<Rightarrow> exn + nat" where
  "files_of result side =
     sbind (py_getitem result ''development'') (\<lambda>d.
     sbind (py_getitem d side) (\<lambda>part.
     sbind (py_getitem part ''files'') py_len))"

definition dev_summary :: "jval \<Rightarrow> jval \<Rightarrow> exn + dict" where
  "dev_summary fid result =
     sbind (sbind (py_getitem result ''development'') (\<lambda>d. py_getitem d ''tech_stack''))
       (\<lambda>tech_stack.
     sbind (files_of result ''backend'') (\<lambda>backend.
     sbind (files_of result ''frontend'') (\<lambda>frontend.
     Inr [(''feature_id'', fid), (''tech_stack_used'', tech_stack),
          (''files_generated'', JInt (int backend + int frontend))])))"

definition run_dev_agent :: "env \<Rightarrow> jval \<Rightarrow> dict prog" where
  "run_dev_agent env fid =
     andthen (call_agent ''dev'' (dev_agent env fid)) (\<lambda>result.
     attempt (dev_summary fid result))"

definition qa_summary :: "jval \<Rightarrow> jval \<Rightarrow> exn + dict" where
  "qa_summary fid result =
     sbind (sbind (py_getitem result ''summary'') (\<lambda>sm. py_getitem sm ''overall_score''))
       (\<lambda>overall_score.
     sbind (sbind (py_getitem result ''summary'') (\<lambda>sm. py_getitem sm ''status'')) (\<lambda>st.
     Inr [(''feature_id'', fid), (''test_report'', result),
          (''overall_score'', overall_score), (''status'', st)]))"

definition run_qa_agent :: "env \<Rightarrow> jval \<Rightarrow> dict prog" where
  "run_qa_agent env fid =
     andthen (call_agent ''qa'' (qa_agent env fid)) (\<lambda>result.
     attempt (qa_summary fid result))"

definition deploy_summary :: "jval \<Rightarrow> jval \<Rightarrow> exn + dict" where
  "deploy_summary fid result =
     sbind (py_getitem result ''deployment_id'') (\<lambda>deployment_id.
     sbind (py_getitem result ''status'') (\<lambda>st.
     sbind (sbind (py_get result ''deployment'' (JDict [])) (\<lambda>d. py_get d ''urls'' (JDict [])))
       (\<lambda>urls.
     Inr [(''feature_id'', fid), (''deployment_id'', deployment_id),
          (''status'', st), (''urls'', urls)])))"

definition run_deploy_agent :: "env \<Rightarrow> jval \<Rightarrow> dict prog" where
  "run_deploy_agent env fid =
     andthen (call_agent ''deploy'' (deploy_agent env fid)) (\<lambda>result.
     attempt (deploy_summary fid result))"

subsection \<open>The steps of \<open>run_full_pipeline\<close>\<close>

text \<open>
  Step 0, run when a source codebase is given: returns the new \<open>idea\<close> and \<open>tech_stack\<close>.
  The arguments of a recorder call are evaluated before the call, so an argument that
  raises leaves the event unrecorded.
\<close>

definition step_reverse_engineer :: "env \<Rightarrow> string \<Rightarrow> jval \<Rightarrow> (string \<times> jval) prog" where
  "step_reverse_engineer env source_codebase tech_stack =
     andthen (run_reverse_engineer env source_codebase) (\<lambda>rev_result.
     andthen (add_step ''reverse_engineer'' rev_result) (\<lambda>_.
     andthen (attempt (py_get (dict_get rev_result ''metrics'' (JDict [])) ''total_files'' (JInt 0)))
       (\<lambda>total_files.
     andthen (chronicle_do
                (record_agent_action ''reverse_engineer'' ''analyze_codebase''
                   (JStr source_codebase) (JDict rev_result)
                   (Some [(''files_analyzed'', total_files)]))) (\<lambda>_.
     andthen (attempt (py_get (dict_get rev_result ''spec'' (JDict [])) ''title''
                         (JStr ''Application''))) (\<lambda>title.
     andthen (attempt (if truthy tech_stack then Inr tech_stack
                       else py_get (dict_get rev_result ''tech_stack'' (JDict []))
                              ''primary_language'' (JStr ''React, Node.js''))) (\<lambda>tech_stack'.
     yield (''Rebuild and improve: '' @ py_str env title, tech_stack')))))))"

text \<open>Step -1, run when no source codebase is given.\<close>

definition step_web_scraper :: "env \<Rightarrow> string \<Rightarrow> unit prog" where
  "step_web_scraper env idea =
     andthen (run_web_scraper env idea) (\<lambda>scraper_result.
     andthen (add_step ''web_scraper'' scraper_result) (\<lambda>_.
     andthen (chronicle_do
                (record_agent_action ''web_scraper'' ''market_research''
                   (JStr idea) (JDict scraper_result)
                   (Some [(''competitors_found'',
                           dict_get scraper_result ''competitors_found'' (JInt 0))]))) (\<lambda>_.
     chronicle_do
       (record_handoff ''web_scraper'' ''pm'' ''market_research_report''
          (py_str env (dict_get scraper_result ''competitors_found'' (JInt 0)) @
           '' competitors, '' @
           py_str env (dict_get scraper_result ''pain_points'' (JInt 0)) @ '' pain points'')))))"

text \<open>Step 1: returns the feature id.\<close>

definition step_pm :: "env \<Rightarrow> string \<Rightarrow> jval \<Rightarrow> jval prog" where
  "step_pm env idea tech_stack =
     andthen (run_pm_agent env idea tech_stack) (\<lambda>pm_result.
     andthen (add_step ''pm'' pm_result) (\<lambda>_.
     andthen (attempt (py_getitem (JDict pm_result) ''feature_id'')) (\<lambda>fid.
     andthen (chronicle_do
                (record_agent_action ''pm'' ''create_specification'' (JStr idea) (JDict pm_result)
                   (Some [(''user_stories'',
                           dict_get pm_result ''user_stories_count'' (JInt 0))]))) (\<lambda>_.
     andthen (chronicle_do
                (record_decision ''pm''
                   (''Build with '' @
                    py_str env (if truthy tech_stack then tech_stack else JStr ''default stack''))
                   ''Based on market research and technical requirements''
                   (Some [''Alternative stacks evaluated'']))) (\<lambda>_.
     andthen (chronicle_do
                (record_checkpoint ''specification'' (JStr ''success'') (Some pm_result))) (\<lambda>_.
     andthen (chronicle_do
                (record_handoff ''pm'' ''dev'' ''feature_specification''
                   (py_str env (dict_get pm_result ''user_stories_count'' (JInt 0)) @
                    '' user stories, API spec, DB schema''))) (\<lambda>_.
     yield fid)))))))"

text \<open>Step 2.\<close>

definition stack_name :: "dict \<Rightarrow> string \<Rightarrow> string \<Rightarrow> exn + jval" where
  "stack_name step_result side dflt =
     sbind (py_get (dict_get step_result ''tech_stack_used'' (JDict [])) side (JDict []))
       (\<lambda>part. py_get part ''name'' (JStr dflt))"

definition step_dev :: "env \<Rightarrow> jval \<Rightarrow> unit prog" where
  "step_dev env fid =
     andthen (run_dev_agent env fid) (\<lambda>dev_result.
     andthen (add_step ''dev'' dev_result) (\<lambda>_.
     andthen (chronicle_do
                (record_agent_action ''dev'' ''generate_codebase'' fid (JDict dev_result)
                   (Some [(''files_generated'',
                           dict_get dev_result ''files_generated'' (JInt 0))]))) (\<lambda>_.
     andthen (chronicle_do
                (record_checkpoint ''development'' (JStr ''success'') (Some dev_result))) (\<lambda>_.
     andthen (attempt (stack_name dev_result ''frontend'' ''unknown'')) (\<lambda>frontend.
     andthen (attempt (stack_name dev_result ''backend'' ''unknown'')) (\<lambda>backend.
     chronicle_do
       (record_handoff ''dev'' ''qa'' ''codebase''
          (py_str env (dict_get dev_result ''files_generated'' (JInt 0)) @ '' files in '' @
           py_str env frontend @ '' + '' @ py_str env backend))))))))"

text \<open>Step 3: returns the QA stage result.\<close>

definition step_qa :: "env \<Rightarrow> jval \<Rightarrow> dict prog" where
  "step_qa env fid =
     andthen (run_qa_agent env fid) (\<lambda>qa_result.
     andthen (add_step ''qa'' qa_result) (\<lambda>_.
     andthen (chronicle_do
                (record_agent_action ''qa'' ''test_feature'' fid (JDict qa_result)
                   (Some [(''score'', dict_get qa_result ''overall_score'' (JInt 0))]))) (\<lambda>_.
     andthen (chronicle_do
                (record_checkpoint ''testing'' (dict_get qa_result ''status'' (JStr ''unknown''))
                   (Some qa_result))) (\<lambda>_.
     yield qa_result))))"

text \<open>
  The quality gate. \<open>qa_score_of\<close> is
  \<open>qa_result.get("test_report", {}).get("summary", {}).get("overall_score", 0)\<close>.
  The gate returns whether the run halts; when it does, \<open>run_full_pipeline\<close> returns
  from inside the \<open>try\<close> block.
\<close>

definition qa_score_of :: "dict \<Rightarrow> exn + jval" where
  "qa_score_of qa_result =
     sbind (py_get (dict_get qa_result ''test_report'' (JDict [])) ''summary'' (JDict []))
       (\<lambda>sm. py_get sm ''overall_score'' (JInt 0))"

definition quality_gate :: "env \<Rightarrow> dict \<Rightarrow> bool prog" where
  "quality_gate env qa_result =
     andthen (attempt (qa_score_of qa_result)) (\<lambda>qa_score.
     andthen (attempt (py_lt qa_score 50)) (\<lambda>low.
     if low
     then andthen (chronicle_do
                     (record_issue ''qa'' ''low_test_score''
                        (''QA score '' @ py_str env qa_score @ ''% below threshold'')
                        (Some ''Pipeline halted for fixes''))) (\<lambda>_.
          andthen (results_do (\<lambda>r. r\<lparr>status := Some ''failed_qa''\<rparr>)) (\<lambda>_.
          andthen (end_session_do ''failed_qa'') (\<lambda>_.
          yield True)))
     else yield False))"

text \<open>
  \<open>_print_summary\<close> prints only, but it reads the step results again and raises where
  such a read raises.
\<close>

definition print_step :: "string \<times> dict \<Rightarrow> exn + unit" where
  "print_step step =
     (case step of (name, step_result) \<Rightarrow>
        if name = ''pm'' then Inr ()
        else if name = ''reverse_engineer''
        then sbind (py_get (dict_get step_result ''metrics'' (JDict [])) ''total_files'' (JInt 0))
               (\<lambda>_.
             sbind (py_get (dict_get step_result ''tech_stack'' (JDict [])) ''primary_language''
                      (JStr ''N/A'')) (\<lambda>_. Inr ()))
        else if name = ''web_scraper'' then Inr ()
        else if name = ''dev''
        then sbind (stack_name step_result ''frontend'' ''N/A'') (\<lambda>_.
             sbind (stack_name step_result ''backend'' ''N/A'') (\<lambda>_. Inr ()))
        else if name = ''qa''
        then sbind (py_ge (dict_get step_result ''overall_score'' (JInt 0)) 70) (\<lambda>_. Inr ())
        else if name = ''deploy''
        then sbind (py_items (dict_get step_result ''urls'' (JDict []))) (\<lambda>_. Inr ())
        else Inr ())"

fun print_steps :: "(string \<times> dict) list \<Rightarrow> exn + unit" where
  "print_steps [] = Inr ()"
| "print_steps (step # rest) = sbind (print_step step) (\<lambda>_. print_steps rest)"

definition print_summary :: "results \<Rightarrow> exn + unit" where
  "print_summary res = print_steps (steps res)"

text \<open>Step 4 and the successful end of the run.\<close>

definition first_url :: "dict \<Rightarrow> exn + jval" where
  "first_url deploy_result =
     (if truthy (dict_get deploy_result ''urls'' JNone)
      then sbind (py_values (dict_get deploy_result ''urls'' (JDict []))) (\<lambda>vs.
             case vs of [] \<Rightarrow> Inl (IndexError ''list index out of range'') | v # _ \<Rightarrow> Inr v)
      else Inr (JStr ''local''))"

definition step_deploy :: "env \<Rightarrow> jval \<Rightarrow> unit prog" where
  "step_deploy env fid =
     andthen (run_deploy_agent env fid) (\<lambda>deploy_result.
     andthen (add_step ''deploy'' deploy_result) (\<lambda>_.
     andthen (chronicle_do
                (record_agent_action ''deploy'' ''deploy_application'' fid (JDict deploy_result)
                   (Some [(''environment'', JStr ''local''), (''platform'', JStr ''docker'')])))
       (\<lambda>_.
     andthen (attempt (first_url deploy_result)) (\<lambda>url.
     andthen (chronicle_do
                (record_handoff ''deploy'' ''user'' ''deployed_application''
                   (''Available at '' @ py_str env url))) (\<lambda>_.
     andthen (chronicle_do
                (record_checkpoint ''deployment'' (JStr ''success'') (Some deploy_result))) (\<lambda>_.
     andthen (chronicle_do
                (record_collaboration [''web_scraper'', ''pm'', ''dev'', ''qa'', ''deploy'']
                   ''Full pipeline execution''
                   (''Successfully built and deployed '' @ py_str env fid))) (\<lambda>_.
     andthen (results_do (\<lambda>r. r\<lparr>status := Some ''success'', feature_id := Some fid\<rparr>)) (\<lambda>_.
     andthen (end_session_do ''success'') (\<lambda>chronicle_report.
     andthen (results_do (\<lambda>r. r\<lparr>chronicle := Some chronicle_report\<rparr>)) (\<lambda>_.
     andthen read_results (\<lambda>res.
     attempt (print_summary res))))))))))))"

subsection \<open>\<open>run_full_pipeline\<close>\<close>

text \<open>
  The body of the \<open>try\<close> block. It ends in one of three ways: it returns from the function
  (the quality gate halted), it runs to its end, or it raises.
\<close>

datatype ending = Returned | Completed

definition source_of :: "string option \<Rightarrow> string" where
  "source_of source_codebase = (case source_codebase of None \<Rightarrow> [] | Some src \<Rightarrow> src)"

definition given :: "string option \<Rightarrow> bool" where
  "given source_codebase = (source_of source_codebase \<noteq> [])"

definition try_body :: "env \<Rightarrow> string \<Rightarrow> jval \<Rightarrow> string option \<Rightarrow> ending prog" where
  "try_body env idea tech_stack source_codebase =
     andthen (if given source_codebase
              then step_reverse_engineer env (source_of source_codebase) tech_stack
              else yield (idea, tech_stack)) (\<lambda>(idea', tech_stack').
     andthen (if \<not> given source_codebase then step_web_scraper env idea' else yield ()) (\<lambda>_.
     andthen (step_pm env idea' tech_stack') (\<lambda>fid.
     andthen (step_dev env fid) (\<lambda>_.
     andthen (step_qa env fid) (\<lambda>qa_result.
     andthen (quality_gate env qa_result) (\<lambda>halt.
     if halt then yield Returned
     else andthen (step_deploy env fid) (\<lambda>_. yield Completed)))))))"

text \<open>The \<open>except\<close> block, and the write of the run record after the \<open>try\<close> statement.\<close>

definition on_exception :: "exn \<Rightarrow> unit prog" where
  "on_exception e =
     andthen (results_do (\<lambda>r. r\<lparr>status := Some ''failed'', error := Some (exn_str e)\<rparr>)) (\<lambda>_.
     andthen (chronicle_do (record_issue ''pipeline'' ''exception'' (exn_str e) None)) (\<lambda>_.
     andthen (end_session_do ''failed'') (\<lambda>_.
     yield ())))"

definition save_results :: "results prog" where
  "save_results s = (Inr (results s), s\<lparr>written := written s @ [results s]\<rparr>)"

text \<open>
  \<open>run_full_pipeline\<close>, started with the shared recorder in state \<open>c0\<close>. The result is what
  the call returns (or the exception that leaves it) and the final state.
\<close>

definition initial_state :: "env \<Rightarrow> string \<Rightarrow> recorder \<Rightarrow> pstate" where
  "initial_state env idea c0 =
     \<lparr>chron = start_session (session_stamp env)
                (take 30 (map (\<lambda>c. if c = CHR '' '' then CHR ''_'' else c) idea))
                ''pipeline_run'' c0,
      results = \<lparr>pipeline_id = ''pipeline_'' @ pipeline_stamp env, steps = [], status = None,
                 feature_id = None, error = None, chronicle = None\<rparr>,
      invoked = [],
      written = []\<rparr>"

definition run_full_pipeline ::
  "env \<Rightarrow> string \<Rightarrow> string option \<Rightarrow> string option \<Rightarrow> recorder \<Rightarrow> (exn + results) \<times> pstate" where
  "run_full_pipeline env idea tech_stack source_codebase c0 =
     (case try_body env idea (case tech_stack of None \<Rightarrow> JNone | Some t \<Rightarrow> JStr t)
             source_codebase (initial_state env idea c0) of
        (Inr Returned, s) \<Rightarrow> (Inr (results s), s)
      | (Inr Completed, s) \<Rightarrow> save_results s
      | (Inl e, s) \<Rightarrow> andthen (on_exception e) (\<lambda>_. save_results) s)"

subsection \<open>Concrete runs\<close>

text \<open>
  An environment in which every agent returns a small well-formed result, except that
  the outcomes of the development and the testing agent are given.
\<close>

definition qa_report :: "int \<Rightarrow> jval" where
  "qa_report score =
     JDict [(''summary'', JDict [(''overall_score'', JInt score), (''status'', JStr ''done'')])]"

definition dev_ok :: jval where
  "dev_ok =
     JDict [(''development'',
             JDict [(''tech_stack'', JDict []),
                    (''backend'', JDict [(''files'', JList [])]),
                    (''frontend'', JDict [(''files'', JList [])])])]"

definition demo_env :: "exn + jval \<Rightarrow> exn + jval \<Rightarrow> env" where
  "demo_env dev_outcome qa_outcome =
     \<lparr>pipeline_stamp = ''p'',
      session_stamp = ''s'',
      py_repr = (\<lambda>_. ''...''),
      reverse_engineer_agent = (\<lambda>_. Inl (Raised ''Source not found'')),
      web_scraper_agent =
        (\<lambda>_. Inr (JDict [(''id'', JStr ''r1''), (''competitors'', JList []),
                         (''trends'', JList []), (''pain_points'', JList []),
                         (''insights'', JList [])])),
      pm_agent =
        (\<lambda>_ _. Inr (JDict [(''id'', JStr ''feat_1''),
                           (''specification'', JDict [(''title'', JStr ''Todo'')]),
                           (''user_stories'', JList []),
                           (''acceptance_criteria'', JDict [])])),
      dev_agent = (\<lambda>_. dev_outcome),
      qa_agent = (\<lambda>_. qa_outcome),
      deploy_agent =
        (\<lambda>_. Inr (JDict [(''deployment_id'', JStr ''d1''), (''status'', JStr ''deployed'')]))\<rparr>"

definition demo_run :: "exn + jval \<Rightarrow> exn + jval \<Rightarrow> (exn + results) \<times> pstate" where
  "demo_run dev_outcome qa_outcome =
     run_full_pipeline (demo_env dev_outcome qa_outcome) ''todo app'' None None new_recorder"

subsection \<open>Notions used to state and prove the orchestrator's properties\<close>

text \<open>
  The position of an event, and of an agent call, in the text of \<open>run_full_pipeline\<close>:
  statements further down have larger numbers (the two branches after the quality gate
  share numbers, as only one of them runs).
\<close>

definition action_rank :: "string \<Rightarrow> nat" where
  "action_rank a =
     (if a = ''reverse_engineer'' then 2 else if a = ''web_scraper'' then 4
      else if a = ''pm'' then 7 else if a = ''dev'' then 12
      else if a = ''qa'' then 16 else 19)"

definition handoff_rank :: "string \<Rightarrow> nat" where
  "handoff_rank f =
     (if f = ''web_scraper'' then 5 else if f = ''pm'' then 10
      else if f = ''dev'' then 14 else 20)"

definition checkpoint_rank :: "string \<Rightarrow> nat" where
  "checkpoint_rank st =
     (if st = ''specification'' then 9 else if st = ''development'' then 13
      else if st = ''testing'' then 17 else 21)"

definition issue_rank :: "string \<Rightarrow> nat" where
  "issue_rank a = (if a = ''qa'' then 18 else 30)"

definition end_rank :: "string \<Rightarrow> nat" where
  "end_rank st = (if st = ''failed_qa'' then 19 else if st = ''success'' then 23 else 31)"

fun rank :: "event_body \<Rightarrow> nat" where
  "rank (SessionStart _ _) = 0"
| "rank (AgentAction a _ _ _ _ _) = action_rank a"
| "rank (Handoff f _ _ _) = handoff_rank f"
| "rank (Decision _ _ _ _) = 8"
| "rank (Checkpoint st _ _) = checkpoint_rank st"
| "rank (Collaboration _ _ _) = 22"
| "rank (Issue a _ _ _ _) = issue_rank a"
| "rank (SessionEnd st _) = end_rank st"

definition agent_rank :: "string \<Rightarrow> nat" where
  "agent_rank a =
     (if a = ''reverse_engineer'' then 1 else if a = ''web_scraper'' then 3
      else if a = ''pm'' then 6 else if a = ''dev'' then 11
      else if a = ''qa'' then 15 else 18)"

definition sorted_events :: "event list \<Rightarrow> bool" where
  "sorted_events log = sorted_wrt (<) (map (\<lambda>e. rank (body e)) log)"

definition top_event :: "event list \<Rightarrow> nat" where
  "top_event log = (if log = [] then 0 else Suc (rank (body (last log))))"

definition sorted_calls :: "(string \<times> (exn + jval)) list \<Rightarrow> bool" where
  "sorted_calls tr = sorted_wrt (<) (map (\<lambda>c. agent_rank (fst c)) tr)"

definition top_call :: "(string \<times> (exn + jval)) list \<Rightarrow> nat" where
  "top_call tr = (if tr = [] then 0 else Suc (agent_rank (fst (last tr))))"

text \<open>A log is quiet when no event carries a duration; every call in a trace returned.\<close>

definition quiet :: "event list \<Rightarrow> bool" where
  "quiet log = list_all (\<lambda>e. \<not> truthy (duration_ms e)) log"

definition quiet_groups :: "(string \<times> event list) list \<Rightarrow> bool" where
  "quiet_groups aa = list_all (\<lambda>g. quiet (snd g)) aa"

definition all_returned :: "(string \<times> (exn + jval)) list \<Rightarrow> bool" where
  "all_returned tr = list_all (\<lambda>c. \<not> isl (snd c)) tr"

definition raised_last :: "exn \<Rightarrow> (string \<times> (exn + jval)) list \<Rightarrow> bool" where
  "raised_last e tr = (tr \<noteq> [] \<and> snd (last tr) = Inl e \<and> all_returned (butlast tr))"

text \<open>
  The state of a run that has come as far as position \<open>k\<close> of the text, and the same
  with what is known of the agent calls on normal and on exceptional exit.
\<close>

definition upto :: "nat \<Rightarrow> pstate \<Rightarrow> bool" where
  "upto k s =
     (sorted_events (event_log (chron s)) \<and> top_event (event_log (chron s)) \<le> k \<and>
      sorted_calls (invoked s) \<and> top_call (invoked s) \<le> k \<and>
      quiet (event_log (chron s)) \<and> written s = [])"

definition fine :: "nat \<Rightarrow> pstate \<Rightarrow> bool" where
  "fine k s = (upto k s \<and> all_returned (invoked s))"

definition broken :: "nat \<Rightarrow> exn \<Rightarrow> pstate \<Rightarrow> bool" where
  "broken k e s = (upto k s \<and> (all_returned (invoked s) \<or> raised_last e (invoked s)))"

definition hoare ::
  "(pstate \<Rightarrow> bool) \<Rightarrow> 'a prog \<Rightarrow> ('a \<Rightarrow> pstate \<Rightarrow> bool) \<Rightarrow> (exn \<Rightarrow> pstate \<Rightarrow> bool) \<Rightarrow> bool" where
  "hoare P m Q E =
     (\<forall>s. P s \<longrightarrow> (case m s of (Inl e, s') \<Rightarrow> E e s' | (Inr a, s') \<Rightarrow> Q a s'))"

text \<open>
  Every event of the first kind lies before every event of the second kind in the log.
\<close>

definition precedes :: "(event_body \<Rightarrow> bool) \<Rightarrow> (event_body \<Rightarrow> bool) \<Rightarrow> event list \<Rightarrow> bool" where
  "precedes p q log =
     (\<forall>i < length log. \<forall>j < length log. p (body (log ! i)) \<and> q (body (log ! j)) \<longrightarrow> i < j)"

fun action_of :: "string \<Rightarrow> event_body \<Rightarrow> bool" where
  "action_of a (AgentAction a' _ _ _ _ _) = (a' = a)"
| "action_of a _ = False"

fun checkpoint_of :: "string \<Rightarrow> event_body \<Rightarrow> bool" where
  "checkpoint_of st (Checkpoint st' _ _) = (st' = st)"
| "checkpoint_of st _ = False"

fun handoff_of :: "string \<Rightarrow> event_body \<Rightarrow> bool" where
  "handoff_of a (Handoff a' _ _ _) = (a' = a)"
| "handoff_of a _ = False"

text \<open>The events of the run's log, without their sequence numbers.\<close>

definition log_bodies :: "pstate \<Rightarrow> event_body list" where
  "log_bodies s = map body (event_log (chron s))"

section \<open>Properties of the Chronicle recorder\<close>

subsection \<open>Appending\<close>

lemma record_event_log:
  "event_log (record_event b r) =
     event_log r @ [\<lparr>body = b, sequence_number = Suc (length (event_log r))\<rparr>]"
  by (simp add: record_event_def)

lemma start_session_log:
  "event_log (start_session stamp f t r) = [\<lparr>body = SessionStart f t, sequence_number = 1\<rparr>]"
  by (simp add: start_session_def record_event_log)

lemma end_session_log:
  "event_log (fst (end_session final_status r)) =
     event_log r @ [\<lparr>body = SessionEnd final_status (length (event_log r)),
                     sequence_number = Suc (length (event_log r))\<rparr>]"
  by (simp add: end_session_def Let_def record_event_log)

lemma apply_call_append:
  "\<not> is_start c \<Longrightarrow>
     \<exists>b. event_log (apply_call c r) =
           event_log r @ [\<lparr>body = b, sequence_number = Suc (length (event_log r))\<rparr>]"
  by (cases c)
     (simp_all add: record_event_log record_agent_action_def record_handoff_def
        record_decision_def record_collaboration_def record_checkpoint_def record_issue_def
        end_session_log)

lemma well_numbered_snoc:
  "well_numbered log \<Longrightarrow>
     well_numbered (log @ [\<lparr>body = b, sequence_number = Suc (length log)\<rparr>])"
  by (simp add: well_numbered_def)

lemma run_calls_append:
  "list_all (\<lambda>c. \<not> is_start c) cs \<Longrightarrow>
     \<exists>evs. event_log (run_calls cs r) = event_log r @ evs \<and> length evs = length cs"
proof (induction cs arbitrary: r)
  case Nil
  then show ?case by simp
next
  case (Cons c cs)
  from Cons.prems have c: "\<not> is_start c" and cs: "list_all (\<lambda>c. \<not> is_start c) cs"
    by simp_all
  from apply_call_append [OF c, of r] obtain b where
    b: "event_log (apply_call c r) =
          event_log r @ [\<lparr>body = b, sequence_number = Suc (length (event_log r))\<rparr>]"
    by blast
  from Cons.IH [OF cs, of "apply_call c r"] obtain evs where
    evs: "event_log (run_calls cs (apply_call c r)) = event_log (apply_call c r) @ evs"
      "length evs = length cs"
    by blast
  show ?case
    using b evs by simp
qed

lemma run_calls_numbered:
  "list_all (\<lambda>c. \<not> is_start c) cs \<Longrightarrow> well_numbered (event_log r) \<Longrightarrow>
     well_numbered (event_log (run_calls cs r)) \<and>
     length (event_log (run_calls cs r)) = length (event_log r) + length cs"
proof (induction cs arbitrary: r)
  case Nil
  then show ?case by simp
next
  case (Cons c cs)
  from Cons.prems have c: "\<not> is_start c" and cs: "list_all (\<lambda>c. \<not> is_start c) cs"
    by simp_all
  from apply_call_append [OF c, of r] obtain b where
    b: "event_log (apply_call c r) =
          event_log r @ [\<lparr>body = b, sequence_number = Suc (length (event_log r))\<rparr>]"
    by blast
  have wn: "well_numbered (event_log (apply_call c r))"
    unfolding b using Cons.prems(2) by (rule well_numbered_snoc)
  from Cons.IH [OF cs wn] b show ?case
    by simp
qed

text \<open>
  Claim C1. A session is a \<open>start_session\<close> call followed by any recorder calls other than
  \<open>start_session\<close> (which would begin another session); a recorder fresh from
  \<open>__init__\<close> also accepts such calls without a start. After N calls in all, the
  sequence numbers in the log are exactly 1, 2, ..., N in log order.
\<close>

theorem sequence_numbers_dense:
  assumes "list_all (\<lambda>c. \<not> is_start c) cs"
  shows "map sequence_number (event_log (run_calls (StartSession stamp f t # cs) r)) =
           [1..<Suc (length (StartSession stamp f t # cs))] \<and>
         map sequence_number (event_log (run_calls cs new_recorder)) = [1..<Suc (length cs)]"
proof
  have "well_numbered (event_log (start_session stamp f t r))"
    by (simp add: start_session_log well_numbered_def)
  from run_calls_numbered [OF assms this]
  show "map sequence_number (event_log (run_calls (StartSession stamp f t # cs) r)) =
           [1..<Suc (length (StartSession stamp f t # cs))]"
    by (simp add: well_numbered_def start_session_log)
next
  have "well_numbered (event_log new_recorder)"
    by (simp add: new_recorder_def well_numbered_def)
  from run_calls_numbered [OF assms this]
  show "map sequence_number (event_log (run_calls cs new_recorder)) = [1..<Suc (length cs)]"
    by (simp add: well_numbered_def new_recorder_def)
qed

theorem sequence_numbers_dense_witness:
  "list_all (\<lambda>c. \<not> is_start c)
     [RecordHandoff ''pm'' ''dev'' ''spec'' ''s'', EndSession ''success''] \<and>
   map sequence_number
     (event_log (run_calls [StartSession ''t'' ''f'' ''manual'',
                            RecordHandoff ''pm'' ''dev'' ''spec'' ''s'', EndSession ''success'']
                   new_recorder)) = [1, 2, 3]"
  using sequence_numbers_dense
    [of "[RecordHandoff ''pm'' ''dev'' ''spec'' ''s'', EndSession ''success'']"
        "''t''" "''f''" "''manual''" new_recorder]
  by (simp add: upt_rec)

text \<open>
  Claim C5. Whatever the log holds when \<open>end_session\<close> is called, say K events, the call
  appends exactly one event, a \<open>session_end\<close> whose \<open>total_events\<close> is K, and the log has
  K + 1 events afterwards.
\<close>

theorem end_session_appends_one:
  "event_log (fst (end_session final_status r)) =
     event_log r @ [\<lparr>body = SessionEnd final_status (length (event_log r)),
                     sequence_number = Suc (length (event_log r))\<rparr>] \<and>
   length (event_log (fst (end_session final_status r))) = Suc (length (event_log r))"
  by (simp add: end_session_log)

text \<open>
  Claim C7. Every recorder operation other than \<open>start_session\<close> leaves the events already
  in the log as they are and adds exactly one event at the end; a sequence of such
  operations adds exactly one event per operation.
\<close>

theorem recorder_only_appends:
  "(\<not> is_start c \<longrightarrow>
      take (length (event_log r)) (event_log (apply_call c r)) = event_log r \<and>
      length (event_log (apply_call c r)) = Suc (length (event_log r))) \<and>
   (list_all (\<lambda>c. \<not> is_start c) cs \<longrightarrow>
      take (length (event_log r)) (event_log (run_calls cs r)) = event_log r \<and>
      length (event_log (run_calls cs r)) = length (event_log r) + length cs)"
proof (intro conjI impI)
  assume c: "\<not> is_start c"
  from apply_call_append [OF c, of r]
  show "take (length (event_log r)) (event_log (apply_call c r)) = event_log r"
    and "length (event_log (apply_call c r)) = Suc (length (event_log r))"
    by auto
next
  assume cs: "list_all (\<lambda>c. \<not> is_start c) cs"
  from run_calls_append [OF cs, of r]
  show "take (length (event_log r)) (event_log (run_calls cs r)) = event_log r"
    and "length (event_log (run_calls cs r)) = length (event_log r) + length cs"
    by auto
qed

theorem recorder_only_appends_witness:
  "\<not> is_start (RecordIssue ''qa'' ''low_test_score'' ''d'' None) \<and>
   list_all (\<lambda>c. \<not> is_start c) [RecordDecision ''pm'' ''d'' ''r'' None, EndSession ''failed''] \<and>
   take 4 (event_log (apply_call (RecordIssue ''qa'' ''low_test_score'' ''d'' None) demo_session)) =
     event_log demo_session \<and>
   length (event_log (apply_call (RecordIssue ''qa'' ''low_test_score'' ''d'' None) demo_session)) = 5 \<and>
   take 4 (event_log (run_calls [RecordDecision ''pm'' ''d'' ''r'' None, EndSession ''failed'']
                        demo_session)) = event_log demo_session \<and>
   length (event_log (run_calls [RecordDecision ''pm'' ''d'' ''r'' None, EndSession ''failed'']
                        demo_session)) = 6"
proof -
  have len: "length (event_log demo_session) = 4"
    by (simp add: demo_session_def start_session_log record_agent_action_def record_handoff_def
        record_event_log)
  from recorder_only_appends
    [of "RecordIssue ''qa'' ''low_test_score'' ''d'' None" demo_session
        "[RecordDecision ''pm'' ''d'' ''r'' None, EndSession ''failed'']"]
  show ?thesis
    unfolding len by simp
qed

subsection \<open>The report\<close>

lemma add_action_keys:
  "map fst (add_action a e aa) = (if a \<in> set (map fst aa) then map fst aa else map fst aa @ [a])"
  by (auto simp: add_action_def)

lemma bucket_event_handoffs:
  "handoffs (bucket_event e b) =
     handoffs b @ filter (\<lambda>e. event_type (body e) = ''handoff'') [e]"
  by (cases "body e") simp_all

lemma bucket_event_decisions:
  "decisions (bucket_event e b) =
     decisions b @ filter (\<lambda>e. event_type (body e) = ''decision'') [e]"
  by (cases "body e") simp_all

lemma bucket_event_issues:
  "issues (bucket_event e b) = issues b @ filter (\<lambda>e. event_type (body e) = ''issue'') [e]"
  by (cases "body e") simp_all

lemma bucket_event_collaborations:
  "collaborations (bucket_event e b) =
     collaborations b @ filter (\<lambda>e. event_type (body e) = ''collaboration'') [e]"
  by (cases "body e") simp_all

lemma bucket_event_agents:
  "distinct (map fst (agent_actions b)) \<Longrightarrow>
     distinct (map fst (agent_actions (bucket_event e b))) \<and>
     set (map fst (agent_actions (bucket_event e b))) =
       set (map fst (agent_actions b)) \<union> agents_acting [e]"
  by (cases "body e") (auto simp: add_action_keys agents_acting_def)

lemma bucket_log_handoffs:
  "handoffs (bucket_log es b) = handoffs b @ filter (\<lambda>e. event_type (body e) = ''handoff'') es"
  by (induction es arbitrary: b) (simp_all add: bucket_event_handoffs del: bucket_event.simps)

lemma bucket_log_decisions:
  "decisions (bucket_log es b) =
     decisions b @ filter (\<lambda>e. event_type (body e) = ''decision'') es"
  by (induction es arbitrary: b) (simp_all add: bucket_event_decisions del: bucket_event.simps)

lemma bucket_log_issues:
  "issues (bucket_log es b) = issues b @ filter (\<lambda>e. event_type (body e) = ''issue'') es"
  by (induction es arbitrary: b) (simp_all add: bucket_event_issues del: bucket_event.simps)

lemma bucket_log_collaborations:
  "collaborations (bucket_log es b) =
     collaborations b @ filter (\<lambda>e. event_type (body e) = ''collaboration'') es"
  by (induction es arbitrary: b)
     (simp_all add: bucket_event_collaborations del: bucket_event.simps)

lemma agents_acting_Cons: "agents_acting (e # es) = agents_acting [e] \<union> agents_acting es"
  by (auto simp: agents_acting_def)

lemma bucket_log_agents:
  "distinct (map fst (agent_actions b)) \<Longrightarrow>
     distinct (map fst (agent_actions (bucket_log es b))) \<and>
     set (map fst (agent_actions (bucket_log es b))) =
       set (map fst (agent_actions b)) \<union> agents_acting es"
proof (induction es arbitrary: b)
  case Nil
  then show ?case by (simp add: agents_acting_def)
next
  case (Cons e es)
  from bucket_event_agents [OF Cons.prems, of e]
  have d: "distinct (map fst (agent_actions (bucket_event e b)))"
    and s: "set (map fst (agent_actions (bucket_event e b))) =
              set (map fst (agent_actions b)) \<union> agents_acting [e]"
    by simp_all
  from Cons.IH [OF d] s show ?case
    by (simp add: agents_acting_Cons [of e es] Un_assoc del: bucket_event.simps)
qed

lemma bucket_log_agent_count:
  "length (agent_actions (bucket_log log empty_buckets)) = card (agents_acting log)"
proof -
  have "distinct (map fst (agent_actions empty_buckets))"
    by (simp add: empty_buckets_def)
  from bucket_log_agents [OF this, of log]
  have d: "distinct (map fst (agent_actions (bucket_log log empty_buckets)))"
    and s: "set (map fst (agent_actions (bucket_log log empty_buckets))) = agents_acting log"
    by (simp_all add: empty_buckets_def)
  from distinct_card [OF d] s show ?thesis
    by simp
qed

lemma empty_buckets_fields:
  "handoffs empty_buckets = []" "decisions empty_buckets = []"
  "issues empty_buckets = []" "collaborations empty_buckets = []"
  by (simp_all add: empty_buckets_def)

lemma generate_report_summary:
  assumes "generate_report r = Inr rep"
  shows "summary rep =
           \<lparr>total_events = length (event_log r),
            total_agents_involved = card (agents_acting (event_log r)),
            total_handoffs = count_type ''handoff'' (event_log r),
            total_decisions = count_type ''decision'' (event_log r),
            total_issues = count_type ''issue'' (event_log r),
            total_collaborations = count_type ''collaboration'' (event_log r)\<rparr>"
  using assms
  by (auto simp: generate_report_def Let_def count_type_def bucket_log_handoffs
        bucket_log_decisions bucket_log_issues bucket_log_collaborations bucket_log_agent_count
        empty_buckets_fields split: sum.splits)

lemma end_session_report:
  "end_session final_status r = (r', res) \<Longrightarrow> res = generate_report r'"
  by (auto simp: end_session_def Let_def)

lemma demo_session_closed:
  "end_session ''success'' demo_session = (demo_closed, Inr demo_report)"
  by (simp add: demo_closed_def demo_report_def demo_session_def end_session_def Let_def
      record_event_def start_session_def record_agent_action_def record_handoff_def
      new_recorder_def generate_report_def empty_buckets_def add_action_def
      identify_bottlenecks_def dict_get_def)

lemma demo_closed_log:
  "map body (event_log demo_closed) =
     [SessionStart ''demo'' ''demo'',
      AgentAction ''dev'' ''generate_code'' ''spec'' ''code'' (JInt 60001)
        [(''duration_ms'', JInt 60001)],
      AgentAction ''qa'' ''test_feature'' ''code'' ''report'' (JInt 60000)
        [(''duration_ms'', JInt 60000)],
      Handoff ''dev'' ''qa'' ''codebase'' ''20 files'',
      SessionEnd ''success'' 4]"
  by (simp add: demo_closed_def demo_session_def end_session_def Let_def
      record_event_def start_session_def record_agent_action_def record_handoff_def
      new_recorder_def dict_get_def)

text \<open>
  Claim C6. For a closed session (the recorder as \<open>end_session\<close> leaves it, together with
  the report it returns), the report's \<open>total_events\<close> is the length of the closed log,
  \<open>session_end\<close> event included; \<open>total_handoffs\<close>, \<open>total_decisions\<close>, \<open>total_issues\<close> and
  \<open>total_collaborations\<close> are the numbers of events of those types in that log; and
  \<open>total_agents_involved\<close> is the number of distinct agents in its \<open>agent_action\<close> events.
\<close>

theorem report_summary_counts:
  assumes "end_session final_status r = (r', Inr rep)"
  shows "total_events (summary rep) = length (event_log r') \<and>
         total_handoffs (summary rep) = count_type ''handoff'' (event_log r') \<and>
         total_decisions (summary rep) = count_type ''decision'' (event_log r') \<and>
         total_issues (summary rep) = count_type ''issue'' (event_log r') \<and>
         total_collaborations (summary rep) = count_type ''collaboration'' (event_log r') \<and>
         total_agents_involved (summary rep) = card (agents_acting (event_log r'))"
proof -
  from end_session_report [OF assms] have "generate_report r' = Inr rep"
    by simp
  from generate_report_summary [OF this] show ?thesis
    by simp
qed

theorem report_summary_counts_witness:
  "end_session ''success'' demo_session = (demo_closed, Inr demo_report) \<and>
   total_events (summary demo_report) = length (event_log demo_closed) \<and>
   total_handoffs (summary demo_report) = count_type ''handoff'' (event_log demo_closed) \<and>
   total_agents_involved (summary demo_report) = card (agents_acting (event_log demo_closed)) \<and>
   total_events (summary demo_report) = 5 \<and>
   total_handoffs (summary demo_report) = 1 \<and>
   total_agents_involved (summary demo_report) = 2"
proof -
  have c: "total_events (summary demo_report) = 5 \<and>
           total_handoffs (summary demo_report) = 1 \<and>
           total_agents_involved (summary demo_report) = 2"
    by (simp add: demo_report_def)
  from report_summary_counts [OF demo_session_closed] demo_session_closed c
  show ?thesis
    by blast
qed

subsection \<open>Bottlenecks\<close>

lemma long_actions_step:
  assumes "long_actions (e # es) bs = Inr bs'"
  shows "long_actions es (bs @ map long_entry (filter over_threshold [e])) = Inr bs'"
proof (cases "body e")
  case (AgentAction a act i out d md)
  then show ?thesis
    using assms by (cases d) (auto simp: long_entry_def split: if_splits)
qed (use assms in auto)

lemma long_actions_result:
  "long_actions es bs = Inr bs' \<Longrightarrow> bs' = bs @ map long_entry (filter over_threshold es)"
proof (induction es arbitrary: bs)
  case Nil
  then show ?case by simp
next
  case (Cons e es)
  from Cons.IH [OF long_actions_step [OF Cons.prems]] show ?case
    by (simp del: over_threshold.simps)
qed

lemma filter_long_entries: "filter is_long (map long_entry xs) = map long_entry xs"
  by (induction xs) (simp_all add: long_entry_def)

lemma identify_bottlenecks_long:
  assumes "identify_bottlenecks log = Inr bs"
  shows "filter is_long bs = map long_entry (filter over_threshold log)"
proof -
  from assms obtain bs0 where l: "long_actions log [] = Inr bs0"
    and bs: "bs = bs0 \<or> (\<exists>n ds. bs = bs0 @ [UnresolvedIssues n ds])"
    by (auto simp: identify_bottlenecks_def Let_def split: sum.splits if_splits)
  from long_actions_result [OF l] have "bs0 = map long_entry (filter over_threshold log)"
    by simp
  with bs filter_long_entries [of "filter over_threshold log"] show ?thesis
    by auto
qed

text \<open>
  Claim C9. In the report of a closed session, the \<open>long_execution\<close> entries of the
  bottleneck list are, in log order, exactly the entries of the \<open>agent_action\<close> events
  whose \<open>duration_ms\<close> is strictly greater than 60000. In the session of the witness the
  action with 60001 ms is listed and the action with 60000 ms is not.
\<close>

theorem bottleneck_threshold:
  assumes "end_session final_status r = (r', Inr rep)"
  shows "filter is_long (bottlenecks rep) =
           map long_entry (filter over_threshold (event_log r'))"
proof -
  from end_session_report [OF assms] have "generate_report r' = Inr rep"
    by simp
  then have "identify_bottlenecks (event_log r') = Inr (bottlenecks rep)"
    by (auto simp: generate_report_def Let_def split: sum.splits)
  then show ?thesis
    by (rule identify_bottlenecks_long)
qed

theorem bottleneck_threshold_witness:
  "end_session ''success'' demo_session = (demo_closed, Inr demo_report) \<and>
   filter is_long (bottlenecks demo_report) =
     map long_entry (filter over_threshold (event_log demo_closed)) \<and>
   bottlenecks demo_report = [LongExecution ''dev'' ''generate_code'' (JInt 60001)] \<and>
   map duration_ms (filter (\<lambda>e. event_type (body e) = ''agent_action'') (event_log demo_closed)) =
     [JInt 60001, JInt 60000]"
proof -
  have c: "bottlenecks demo_report = [LongExecution ''dev'' ''generate_code'' (JInt 60001)]"
    by (simp add: demo_report_def)
  have d: "map duration_ms
             (filter (\<lambda>e. event_type (body e) = ''agent_action'') (event_log demo_closed)) =
           [JInt 60001, JInt 60000]"
    by (simp add: demo_closed_def demo_session_def end_session_def Let_def
        record_event_def start_session_def record_agent_action_def record_handoff_def
        new_recorder_def dict_get_def)
  from bottleneck_threshold [OF demo_session_closed] demo_session_closed c d
  show ?thesis
    by blast
qed


section \<open>Properties of the orchestrator\<close>

subsection \<open>Positions in the log and in the trace of calls\<close>

lemma sorted_wrt_last_max:
  "sorted_wrt (<) (map f xs) \<Longrightarrow> x \<in> set xs \<Longrightarrow> (f x :: nat) \<le> f (last xs)"
proof (induction xs)
  case Nil
  then show ?case by simp
next
  case (Cons a xs)
  show ?case
  proof (cases "xs = []")
    case True
    with Cons.prems show ?thesis by simp
  next
    case False
    then have l: "last xs \<in> set xs" by simp
    show ?thesis
    proof (cases "x = a")
      case True
      with Cons.prems(1) l have "f a < f (last xs)" by simp
      with True False show ?thesis by simp
    next
      case neq: False
      with Cons.prems have "x \<in> set xs" and "sorted_wrt (<) (map f xs)" by simp_all
      with Cons.IH False show ?thesis by simp
    qed
  qed
qed

lemma sorted_wrt_snoc:
  "sorted_wrt (<) (map f (xs @ [x])) =
     (sorted_wrt (<) (map f xs) \<and> (xs = [] \<or> f (last xs) < (f x :: nat)))"
proof (cases "xs = []")
  case True
  then show ?thesis by simp
next
  case False
  then have l: "last xs \<in> set xs" by simp
  have "(\<forall>y\<in>set xs. f y < f x) = (f (last xs) < f x)" if s: "sorted_wrt (<) (map f xs)"
  proof
    assume "\<forall>y\<in>set xs. f y < f x"
    with l show "f (last xs) < f x" by blast
  next
    assume lt: "f (last xs) < f x"
    show "\<forall>y\<in>set xs. f y < f x"
    proof
      fix y assume "y \<in> set xs"
      from sorted_wrt_last_max [OF s this] lt show "f y < f x" by simp
    qed
  qed
  with False show ?thesis
    by (auto simp: sorted_wrt_append)
qed

lemma sorted_events_snoc [simp]:
  "sorted_events (log @ [e]) = (sorted_events log \<and> top_event log \<le> rank (body e))"
  unfolding sorted_events_def top_event_def
  by (simp add: sorted_wrt_snoc [of "\<lambda>e. rank (body e)"] Suc_le_eq del: map_append)

lemma top_event_snoc [simp]: "top_event (log @ [e]) = Suc (rank (body e))"
  by (simp add: top_event_def)

lemma sorted_calls_snoc [simp]:
  "sorted_calls (tr @ [c]) = (sorted_calls tr \<and> top_call tr \<le> agent_rank (fst c))"
  unfolding sorted_calls_def top_call_def
  by (simp add: sorted_wrt_snoc [of "\<lambda>c. agent_rank (fst c)"] Suc_le_eq del: map_append)

lemma top_call_snoc [simp]: "top_call (tr @ [c]) = Suc (agent_rank (fst c))"
  by (simp add: top_call_def)

lemma quiet_snoc [simp]: "quiet (log @ [e]) = (quiet log \<and> \<not> truthy (duration_ms e))"
  by (simp add: quiet_def)

lemma all_returned_snoc [simp]: "all_returned (tr @ [c]) = (all_returned tr \<and> \<not> isl (snd c))"
  by (simp add: all_returned_def)

lemma raised_last_snoc [simp]:
  "raised_last e (tr @ [c]) = (snd c = Inl e \<and> all_returned tr)"
  by (auto simp: raised_last_def)

lemma record_event_sorted [simp]:
  "sorted_events (event_log (record_event b r)) =
     (sorted_events (event_log r) \<and> top_event (event_log r) \<le> rank b)"
  by (simp add: record_event_log)

lemma record_event_top [simp]: "top_event (event_log (record_event b r)) = Suc (rank b)"
  by (simp add: record_event_log)

lemma record_event_quiet [simp]:
  "quiet (event_log (record_event b r)) =
     (quiet (event_log r) \<and> \<not> truthy (case b of AgentAction _ _ _ _ d _ \<Rightarrow> d | _ \<Rightarrow> JNone))"
  by (simp add: record_event_log)

lemma end_session_fst: "fst (end_session st r) = record_event (SessionEnd st (length (event_log r))) r"
  by (simp add: end_session_def Let_def)

lemma rank_simps [simp]:
  "action_rank ''reverse_engineer'' = 2" "action_rank ''web_scraper'' = 4"
  "action_rank ''pm'' = 7" "action_rank ''dev'' = 12" "action_rank ''qa'' = 16"
  "action_rank ''deploy'' = 19"
  "handoff_rank ''web_scraper'' = 5" "handoff_rank ''pm'' = 10" "handoff_rank ''dev'' = 14"
  "handoff_rank ''deploy'' = 20"
  "checkpoint_rank ''specification'' = 9" "checkpoint_rank ''development'' = 13"
  "checkpoint_rank ''testing'' = 17" "checkpoint_rank ''deployment'' = 21"
  "issue_rank ''qa'' = 18" "issue_rank ''pipeline'' = 30"
  "end_rank ''failed_qa'' = 19" "end_rank ''success'' = 23" "end_rank ''failed'' = 31"
  by (simp_all add: action_rank_def handoff_rank_def checkpoint_rank_def issue_rank_def
      end_rank_def)

lemma agent_rank_simps [simp]:
  "agent_rank ''reverse_engineer'' = 1" "agent_rank ''web_scraper'' = 3" "agent_rank ''pm'' = 6"
  "agent_rank ''dev'' = 11" "agent_rank ''qa'' = 15" "agent_rank ''deploy'' = 18"
  by (simp_all add: agent_rank_def)

lemma no_duration [simp]:
  "dict_get [(''files_analyzed'', v)] ''duration_ms'' JNone = JNone"
  "dict_get [(''competitors_found'', v)] ''duration_ms'' JNone = JNone"
  "dict_get [(''user_stories'', v)] ''duration_ms'' JNone = JNone"
  "dict_get [(''files_generated'', v)] ''duration_ms'' JNone = JNone"
  "dict_get [(''score'', v)] ''duration_ms'' JNone = JNone"
  "dict_get [(''environment'', v), (''platform'', w)] ''duration_ms'' JNone = JNone"
  by (simp_all add: dict_get_def)

lemmas recorder_ops =
  record_agent_action_def record_handoff_def record_decision_def record_collaboration_def
  record_checkpoint_def record_issue_def end_session_fst

declare summarize_data.simps [simp del]
declare py_str.simps [simp del]

lemma hoare_andthen:
  assumes f: "\<And>a. hoare (R a) (f a) Q E" and m: "hoare P m R E"
  shows "hoare P (andthen m f) Q E"
  unfolding hoare_def
proof (intro allI impI)
  fix s
  assume "P s"
  with m have *: "case m s of (Inl e, s') \<Rightarrow> E e s' | (Inr a, s') \<Rightarrow> R a s'"
    by (simp add: hoare_def)
  show "case andthen m f s of (Inl e, s') \<Rightarrow> E e s' | (Inr a, s') \<Rightarrow> Q a s'"
  proof (cases "m s")
    case (Pair r s')
    show ?thesis
    proof (cases r)
      case (Inl e)
      with Pair * show ?thesis
        by (simp add: andthen_def)
    next
      case (Inr a)
      with Pair * have "R a s'"
        by simp
      with f [of a] have "case f a s' of (Inl e, s'') \<Rightarrow> E e s'' | (Inr b, s'') \<Rightarrow> Q b s''"
        by (simp add: hoare_def)
      with Pair Inr show ?thesis
        by (simp add: andthen_def)
    qed
  qed
qed

lemma hoare_pre: "hoare P' m Q E \<Longrightarrow> (\<And>s. P s \<Longrightarrow> P' s) \<Longrightarrow> hoare P m Q E"
  by (auto simp: hoare_def)

lemma hoare_post:
  "hoare P m Q' E' \<Longrightarrow> (\<And>a s. Q' a s \<Longrightarrow> Q a s) \<Longrightarrow> (\<And>e s. E' e s \<Longrightarrow> E e s) \<Longrightarrow>
     hoare P m Q E"
  by (auto simp: hoare_def split: sum.splits prod.splits)

lemma hoare_yield: "hoare (Q a) (yield a) Q E"
  by (simp add: hoare_def yield_def)

lemma hoare_attempt:
  "hoare (\<lambda>s. case x of Inl e \<Rightarrow> E e s | Inr a \<Rightarrow> Q a s) (attempt x) Q E"
  by (simp add: hoare_def attempt_def)

lemma chronicle_do_alt: "chronicle_do f s = (Inr (), chron_update f s)"
  by (cases s) (simp add: chronicle_do_def)

lemma results_do_alt: "results_do f s = (Inr (), results_update f s)"
  by (cases s) (simp add: results_do_def)

lemma add_step_alt:
  "add_step n d s = (Inr (), results_update (steps_update (\<lambda>xs. xs @ [(n, d)])) s)"
  by (cases s, cases "results s") (simp add: add_step_def results_do_def)

lemma call_agent_alt:
  "call_agent n outcome s = (outcome, invoked_update (\<lambda>tr. tr @ [(n, outcome)]) s)"
  by (cases s) (simp add: call_agent_def)

lemma end_session_do_alt:
  "end_session_do st s =
     (snd (end_session st (chron s)), chron_update (\<lambda>c. fst (end_session st c)) s)"
  by (cases s) (simp add: end_session_do_def split: prod.splits)

lemma save_results_alt:
  "save_results s = (Inr (results s), written_update (\<lambda>w. w @ [results s]) s)"
  by (cases s) (simp add: save_results_def)

lemma hoare_chronicle: "hoare (\<lambda>s. Q () (chron_update f s)) (chronicle_do f) Q E"
  by (simp add: hoare_def chronicle_do_alt)

lemma hoare_results: "hoare (\<lambda>s. Q () (results_update f s)) (results_do f) Q E"
  by (simp add: hoare_def results_do_alt)

lemma hoare_add_step:
  "hoare (\<lambda>s. Q () (results_update (steps_update (\<lambda>xs. xs @ [(n, d)])) s)) (add_step n d) Q E"
  by (simp add: hoare_def add_step_alt)

lemma hoare_read: "hoare (\<lambda>s. Q (results s) s) read_results Q E"
  by (simp add: hoare_def read_results_def)

lemma hoare_call:
  "hoare (\<lambda>s. case outcome of
                Inl e \<Rightarrow> E e (invoked_update (\<lambda>tr. tr @ [(n, outcome)]) s)
              | Inr a \<Rightarrow> Q a (invoked_update (\<lambda>tr. tr @ [(n, outcome)]) s))
     (call_agent n outcome) Q E"
  by (simp add: hoare_def call_agent_alt)

lemma hoare_end_session:
  "hoare (\<lambda>s. case snd (end_session st (chron s)) of
                Inl e \<Rightarrow> E e (chron_update (\<lambda>c. fst (end_session st c)) s)
              | Inr rep \<Rightarrow> Q rep (chron_update (\<lambda>c. fst (end_session st c)) s))
     (end_session_do st) Q E"
  by (simp add: hoare_def end_session_do_alt)

lemma hoare_if:
  "hoare P1 m1 Q E \<Longrightarrow> hoare P2 m2 Q E \<Longrightarrow>
     hoare (\<lambda>s. if c then P1 s else P2 s) (if c then m1 else m2) Q E"
  by simp

lemma hoare_case_prod:
  "(\<And>x y. hoare (R x y) (g x y) Q E) \<Longrightarrow> hoare (case_prod R p) (case_prod g p) Q E"
  by (cases p) simp

lemmas wp =
  hoare_andthen hoare_yield hoare_attempt hoare_chronicle hoare_results hoare_add_step
  hoare_read hoare_call hoare_end_session hoare_if hoare_case_prod

subsection \<open>Reports of quiet logs\<close>

lemma sum_durations_quiet:
  "list_all (\<lambda>e. \<not> truthy (duration_ms e)) as \<Longrightarrow> sum_durations acc as = Inr acc"
  by (induction as arbitrary: acc) (simp_all del: duration_ms.simps)

lemma calculate_agent_stats_quiet:
  "quiet_groups aa \<Longrightarrow> \<exists>res. calculate_agent_stats aa stats = Inr res"
proof (induction aa arbitrary: stats)
  case Nil
  then show ?case by simp
next
  case (Cons g aa)
  obtain agent acts where g: "g = (agent, acts)" by (cases g)
  with Cons.prems have q: "quiet acts" and rest: "quiet_groups aa"
    by (simp_all add: quiet_groups_def)
  from q have "sum_durations 0 acts = Inr 0"
    by (simp add: quiet_def sum_durations_quiet)
  with Cons.IH [OF rest] g show ?case
    by simp
qed

lemma add_action_quiet:
  "quiet_groups aa \<Longrightarrow> \<not> truthy (duration_ms e) \<Longrightarrow> quiet_groups (add_action a e aa)"
  by (fastforce simp: quiet_groups_def add_action_def quiet_def list_all_iff
      simp del: duration_ms.simps split: if_splits)

lemma bucket_event_quiet:
  "quiet_groups (agent_actions b) \<Longrightarrow> \<not> truthy (duration_ms e) \<Longrightarrow>
     quiet_groups (agent_actions (bucket_event e b))"
  by (cases "body e") (simp_all add: add_action_quiet del: duration_ms.simps)

lemma bucket_log_quiet:
  "quiet_groups (agent_actions b) \<Longrightarrow> quiet log \<Longrightarrow>
     quiet_groups (agent_actions (bucket_log log b))"
proof (induction log arbitrary: b)
  case Nil
  then show ?case by simp
next
  case (Cons e log)
  from Cons.prems have e: "\<not> truthy (duration_ms e)" and l: "quiet log"
    by (simp_all add: quiet_def)
  from Cons.IH [OF bucket_event_quiet [OF Cons.prems(1) e] l] show ?case
    by (simp del: bucket_event.simps)
qed

lemma long_actions_quiet: "quiet log \<Longrightarrow> long_actions log bs = Inr bs"
  by (induction log arbitrary: bs) (simp_all add: quiet_def del: duration_ms.simps)

lemma generate_report_quiet:
  assumes "quiet (event_log r)"
  shows "\<exists>rep. generate_report r = Inr rep"
proof -
  have "quiet_groups (agent_actions empty_buckets)"
    by (simp add: quiet_groups_def empty_buckets_def)
  from bucket_log_quiet [OF this assms]
  obtain stats where
    "calculate_agent_stats (agent_actions (bucket_log (event_log r) empty_buckets)) [] = Inr stats"
    using calculate_agent_stats_quiet by blast
  moreover from assms have "long_actions (event_log r) [] = Inr []"
    by (rule long_actions_quiet)
  ultimately show ?thesis
    by (simp add: generate_report_def identify_bottlenecks_def Let_def)
qed

lemma end_session_quiet [simp]:
  "quiet (event_log c) \<Longrightarrow> snd (end_session st c) \<noteq> Inl e"
proof -
  assume q: "quiet (event_log c)"
  have "quiet (event_log (record_event (SessionEnd st (length (event_log c))) c))"
    using q by simp
  from generate_report_quiet [OF this] show ?thesis
    by (auto simp: end_session_def Let_def)
qed

lemma fine_mono: "fine k s \<Longrightarrow> k \<le> k' \<Longrightarrow> fine k' s"
  by (simp add: fine_def upto_def)

lemma broken_mono: "broken k e s \<Longrightarrow> k \<le> k' \<Longrightarrow> broken k' e s"
  by (simp add: broken_def upto_def)

lemmas vc = fine_def broken_def upto_def recorder_ops

lemma step_reverse_engineer_hoare:
  "hoare (fine 1) (step_reverse_engineer env src ts) (\<lambda>_. fine 3) (broken 3)"
  unfolding step_reverse_engineer_def run_reverse_engineer_def
  apply (rule hoare_pre)
   apply (rule wp)+
  apply (simp add: vc split: sum.splits)
  done

lemma step_web_scraper_hoare:
  "hoare (fine 3) (step_web_scraper env idea) (\<lambda>_. fine 6) (broken 6)"
  unfolding step_web_scraper_def run_web_scraper_def
  apply (rule hoare_pre)
   apply (rule wp)+
  apply (simp add: vc split: sum.splits)
  done

lemma step_pm_hoare:
  "hoare (fine 6) (step_pm env idea ts) (\<lambda>_. fine 11) (broken 11)"
  unfolding step_pm_def run_pm_agent_def
  apply (rule hoare_pre)
   apply (rule wp)+
  apply (simp add: vc split: sum.splits)
  done

lemma step_dev_hoare:
  "hoare (fine 11) (step_dev env fid) (\<lambda>_. fine 15) (broken 15)"
  unfolding step_dev_def run_dev_agent_def
  apply (rule hoare_pre)
   apply (rule wp)+
  apply (simp add: vc split: sum.splits)
  done

lemma step_qa_hoare:
  "hoare (fine 15) (step_qa env fid) (\<lambda>_. fine 18) (broken 18)"
  unfolding step_qa_def run_qa_agent_def
  apply (rule hoare_pre)
   apply (rule wp)+
  apply (simp add: vc split: sum.splits)
  done

lemma quality_gate_hoare:
  "hoare (fine 18) (quality_gate env qa_result)
     (\<lambda>halt s. if halt then fine 20 s else fine 18 s) (broken 20)"
  unfolding quality_gate_def
  apply (rule hoare_pre)
   apply (rule wp)+
  apply (simp add: vc split: sum.splits)
  done

lemma step_deploy_hoare:
  "hoare (fine 18) (step_deploy env fid) (\<lambda>_. fine 24) (broken 24)"
  unfolding step_deploy_def run_deploy_agent_def
  apply (rule hoare_pre)
   apply (rule wp)+
  apply (simp add: vc split: sum.splits)
  done

subsection \<open>The body of the run\<close>

lemma hoare_split:
  "(\<And>x y. hoare P (g x y) Q E) \<Longrightarrow> hoare P (case p of (x, y) \<Rightarrow> g x y) Q E"
  by (cases p) simp

lemma hoare_weaken:
  assumes "hoare P m Q E"
    and "\<And>s. P' s \<Longrightarrow> P s" and "\<And>a s. Q a s \<Longrightarrow> Q' a s" and "\<And>e s. E e s \<Longrightarrow> E' e s"
  shows "hoare P' m Q' E'"
  unfolding hoare_def
proof (intro allI impI)
  fix s
  assume "P' s"
  then have "P s" by (rule assms(2))
  with assms(1) have *: "case m s of (Inl e, s') \<Rightarrow> E e s' | (Inr a, s') \<Rightarrow> Q a s'"
    by (simp add: hoare_def)
  show "case m s of (Inl e, s') \<Rightarrow> E' e s' | (Inr a, s') \<Rightarrow> Q' a s'"
  proof (cases "m s")
    case (Pair r s')
    with * assms(3,4) show ?thesis
      by (cases r) simp_all
  qed
qed

lemma hoare_result:
  assumes "hoare P m Q E" and "P s" and "m s = (r, s')"
  shows "case r of Inl e \<Rightarrow> E e s' | Inr a \<Rightarrow> Q a s'"
proof -
  from assms(1,2) have "case m s of (Inl e, s') \<Rightarrow> E e s' | (Inr a, s') \<Rightarrow> Q a s'"
    by (simp add: hoare_def)
  with assms(3) show ?thesis
    by (cases r) simp_all
qed

lemma try_body_hoare:
  "hoare (fine 1) (try_body env idea ts src) (\<lambda>_. fine 24) (broken 24)"
proof -
  have A: "hoare (fine 1)
             (if given src then step_reverse_engineer env (source_of src) ts
              else yield (idea, ts)) (\<lambda>_. fine 3) (broken 24)"
  proof (cases "given src")
    case True
    then show ?thesis
      using hoare_weaken [OF step_reverse_engineer_hoare, of "fine 1" "\<lambda>_. fine 3" "broken 24"]
      by (simp add: broken_mono)
  next
    case False
    then show ?thesis
      using hoare_weaken [OF hoare_yield [of "\<lambda>_. fine 3"], of "fine 1" "\<lambda>_. fine 3" "broken 24"]
      by (simp add: fine_mono)
  qed
  have B: "hoare (fine 3) (if \<not> given src then step_web_scraper env i else yield ())
             (\<lambda>_. fine 6) (broken 24)" for i
  proof (cases "given src")
    case False
    then show ?thesis
      using hoare_weaken [OF step_web_scraper_hoare, of "fine 3" "\<lambda>_. fine 6" "broken 24"]
      by (simp add: broken_mono)
  next
    case True
    then show ?thesis
      using hoare_weaken [OF hoare_yield [of "\<lambda>_. fine 6"], of "fine 3" "\<lambda>_. fine 6" "broken 24"]
      by (simp add: fine_mono)
  qed
  have PM: "hoare (fine 6) (step_pm env i t) (\<lambda>_. fine 11) (broken 24)" for i t
    by (rule hoare_weaken [OF step_pm_hoare]) (simp_all add: broken_mono)
  have DEV: "hoare (fine 11) (step_dev env fid) (\<lambda>_. fine 15) (broken 24)" for fid
    by (rule hoare_weaken [OF step_dev_hoare]) (simp_all add: broken_mono)
  have QA: "hoare (fine 15) (step_qa env fid) (\<lambda>_. fine 18) (broken 24)" for fid
    by (rule hoare_weaken [OF step_qa_hoare]) (simp_all add: broken_mono)
  have GATE: "hoare (fine 18) (quality_gate env q)
                (\<lambda>halt s. if halt then fine 24 s else fine 18 s) (broken 24)" for q
    by (rule hoare_weaken [OF quality_gate_hoare])
       (auto simp: broken_mono fine_mono split: if_splits)
  have DEP: "hoare (fine 18) (andthen (step_deploy env fid) (\<lambda>_. yield Completed))
               (\<lambda>_. fine 24) (broken 24)" for fid
    by (rule hoare_andthen [where R = "\<lambda>_. fine 24"]) (rule hoare_yield, rule step_deploy_hoare)
  have TAIL: "hoare (\<lambda>s. if halt then fine 24 s else fine 18 s)
                (if halt then yield Returned
                 else andthen (step_deploy env fid) (\<lambda>_. yield Completed))
                (\<lambda>_. fine 24) (broken 24)" for halt fid
    using DEP [of fid] hoare_yield [of "\<lambda>_. fine 24" Returned "broken 24"]
    by (cases halt) simp_all
  show ?thesis
    unfolding try_body_def
    apply (rule hoare_andthen [OF _ A])
    apply (rule hoare_split)
    apply (rule hoare_andthen [OF _ B])
    apply (rule hoare_andthen [OF _ PM])
    apply (rule hoare_andthen [OF _ DEV])
    apply (rule hoare_andthen [OF _ QA])
    apply (rule hoare_andthen [OF _ GATE])
    apply (rule TAIL)
    done
qed

lemma initial_state_fine: "fine 1 (initial_state env idea c0)"
  by (simp add: initial_state_def fine_def upto_def start_session_def sorted_events_def
      top_event_def sorted_calls_def top_call_def quiet_def all_returned_def record_event_log)

subsection \<open>Whole runs\<close>

lemma end_session_returns:
  assumes "quiet (event_log c)"
  obtains rep where "snd (end_session st c) = Inr rep"
  using end_session_quiet [OF assms, of st] by (cases "snd (end_session st c)") auto

lemma on_exception_run:
  assumes q: "quiet (event_log (chron s))"
  shows "fst (on_exception e s) = Inr ()"
    and "invoked (snd (on_exception e s)) = invoked s"
    and "written (snd (on_exception e s)) = written s"
    and "results (snd (on_exception e s)) =
           (results s)\<lparr>status := Some ''failed'', error := Some (exn_str e)\<rparr>"
    and "chron (snd (on_exception e s)) =
           fst (end_session ''failed''
                  (record_issue ''pipeline'' ''exception'' (exn_str e) None (chron s)))"
proof -
  let ?c = "record_issue ''pipeline'' ''exception'' (exn_str e) None (chron s)"
  have "quiet (event_log ?c)"
    using q by (simp add: record_issue_def)
  then obtain rep where rep: "snd (end_session ''failed'' ?c) = Inr rep"
    by (rule end_session_returns)
  have run: "on_exception e s =
          (Inr (), chron_update (\<lambda>c. fst (end_session ''failed'' c))
                     (chron_update (record_issue ''pipeline'' ''exception'' (exn_str e) None)
                        (results_update
                           (\<lambda>r. r\<lparr>status := Some ''failed'', error := Some (exn_str e)\<rparr>) s)))"
    by (simp add: on_exception_def andthen_def results_do_alt chronicle_do_alt
        end_session_do_alt yield_def rep)
  show "fst (on_exception e s) = Inr ()"
    and "invoked (snd (on_exception e s)) = invoked s"
    and "written (snd (on_exception e s)) = written s"
    and "results (snd (on_exception e s)) =
           (results s)\<lparr>status := Some ''failed'', error := Some (exn_str e)\<rparr>"
    and "chron (snd (on_exception e s)) =
           fst (end_session ''failed''
                  (record_issue ''pipeline'' ''exception'' (exn_str e) None (chron s)))"
    by (simp_all add: run)
qed

lemma run_full_pipeline_cases:
  assumes run: "run_full_pipeline env idea ts src c0 = (ret, fin)"
  obtains
    (halted) "try_body env idea (case ts of None \<Rightarrow> JNone | Some t \<Rightarrow> JStr t) src
                (initial_state env idea c0) = (Inr Returned, fin)"
      "fine 24 fin" "ret = Inr (results fin)"
  | (completed) s where
      "try_body env idea (case ts of None \<Rightarrow> JNone | Some t \<Rightarrow> JStr t) src
         (initial_state env idea c0) = (Inr Completed, s)"
      "fine 24 s" "fin = written_update (\<lambda>w. w @ [results s]) s" "ret = Inr (results s)"
  | (failed) e s where
      "try_body env idea (case ts of None \<Rightarrow> JNone | Some t \<Rightarrow> JStr t) src
         (initial_state env idea c0) = (Inl e, s)"
      "broken 24 e s"
      "fin = written_update (\<lambda>w. w @ [results (snd (on_exception e s))]) (snd (on_exception e s))"
      "ret = Inr (results (snd (on_exception e s)))"
proof -
  let ?t = "try_body env idea (case ts of None \<Rightarrow> JNone | Some t \<Rightarrow> JStr t) src
              (initial_state env idea c0)"
  obtain res s where t: "?t = (res, s)"
    by (cases ?t)
  from hoare_result [OF try_body_hoare initial_state_fine t]
  have post: "case res of Inl e \<Rightarrow> broken 24 e s | Inr a \<Rightarrow> fine 24 s" .
  show thesis
  proof (cases res)
    case (Inr ending)
    with post have f: "fine 24 s" by simp
    show thesis
    proof (cases ending)
      case Returned
      with run t Inr have "(Inr (results s), s) = (ret, fin)"
        by (auto simp: run_full_pipeline_def)
      then have "ret = Inr (results s)" "fin = s"
        by auto
      with t Inr Returned f show thesis
        by (intro halted) auto
    next
      case Completed
      with run t Inr
      have "(Inr (results s), written_update (\<lambda>w. w @ [results s]) s) = (ret, fin)"
        by (auto simp: run_full_pipeline_def save_results_alt)
      then have "ret = Inr (results s)" "fin = written_update (\<lambda>w. w @ [results s]) s"
        by auto
      with t Inr Completed f show thesis
        by (intro completed [of s]) auto
    qed
  next
    case (Inl e)
    with post have b: "broken 24 e s" by simp
    then have q: "quiet (event_log (chron s))"
      by (simp add: broken_def upto_def)
    obtain s' where h: "on_exception e s = (Inr (), s')"
      using on_exception_run(1) [OF q, of e] by (cases "on_exception e s") simp
    from run t Inl have "andthen (on_exception e) (\<lambda>_. save_results) s = (ret, fin)"
      by (simp add: run_full_pipeline_def)
    with h have "(Inr (results s'), written_update (\<lambda>w. w @ [results s']) s') = (ret, fin)"
      by (auto simp: andthen_def save_results_alt)
    then have "ret = Inr (results s')" "fin = written_update (\<lambda>w. w @ [results s']) s'"
      by auto
    with t Inl b h show thesis
      by (intro failed [of e s]) auto
  qed
qed


lemma run_sorted:
  assumes run: "run_full_pipeline env idea ts src c0 = (ret, fin)"
  shows "sorted_events (event_log (chron fin))" and "sorted_calls (invoked fin)"
proof -
  have "sorted_events (event_log (chron fin)) \<and> sorted_calls (invoked fin)"
    using run
  proof (cases rule: run_full_pipeline_cases)
    case halted
    then show ?thesis by (simp add: fine_def upto_def)
  next
    case (completed s)
    then show ?thesis by (simp add: fine_def upto_def)
  next
    case (failed e s)
    then have u: "upto 24 s" by (simp add: broken_def)
    then have q: "quiet (event_log (chron s))" by (simp add: upto_def)
    let ?s = "snd (on_exception e s)"
    have c: "chron ?s =
               record_event (SessionEnd ''failed'' (Suc (length (event_log (chron s)))))
                 (record_event (Issue ''pipeline'' ''exception'' (exn_str e) None False) (chron s))"
      by (simp add: on_exception_run(5) [OF q] end_session_fst record_issue_def record_event_log)
    have i: "invoked ?s = invoked s"
      by (rule on_exception_run(2) [OF q])
    from u have "sorted_events (event_log (chron ?s))" "sorted_calls (invoked ?s)"
      unfolding c i by (simp_all add: upto_def)
    with failed(3) show ?thesis
      by simp
  qed
  then show "sorted_events (event_log (chron fin))" and "sorted_calls (invoked fin)"
    by simp_all
qed

lemma precedes_by_rank:
  assumes s: "sorted_events log"
    and p: "\<And>b. p b \<Longrightarrow> rank b = m" and q: "\<And>b. q b \<Longrightarrow> rank b = n" and mn: "m < n"
  shows "precedes p q log"
  unfolding precedes_def
proof (intro allI impI)
  fix i j
  assume i: "i < length log" and j: "j < length log"
    and pq: "p (body (log ! i)) \<and> q (body (log ! j))"
  from pq p q have ri: "rank (body (log ! i)) = m" and rj: "rank (body (log ! j)) = n"
    by simp_all
  show "i < j"
  proof (rule ccontr)
    assume "\<not> i < j"
    then have "j = i \<or> j < i" by arith
    then show False
    proof
      assume "j = i"
      with ri rj mn show False by simp
    next
      assume ji: "j < i"
      from s have "sorted_wrt (<) (map (\<lambda>e. rank (body e)) log)"
        by (simp add: sorted_events_def)
      with ji i have "map (\<lambda>e. rank (body e)) log ! j < map (\<lambda>e. rank (body e)) log ! i"
        by (simp add: sorted_wrt_iff_nth_less)
      with i j ri rj mn show False by simp
    qed
  qed
qed

lemma action_of_rank: "action_of a b \<Longrightarrow> rank b = action_rank a"
  by (cases b) simp_all

lemma checkpoint_of_rank: "checkpoint_of st b \<Longrightarrow> rank b = checkpoint_rank st"
  by (cases b) simp_all

lemma handoff_of_rank: "handoff_of a b \<Longrightarrow> rank b = handoff_rank a"
  by (cases b) simp_all

lemma action_before_checkpoint:
  "sorted_events log \<Longrightarrow> action_rank a < checkpoint_rank st \<Longrightarrow>
     precedes (action_of a) (checkpoint_of st) log"
  using precedes_by_rank [of log "action_of a" "action_rank a" "checkpoint_of st" "checkpoint_rank st"]
  by (simp add: action_of_rank checkpoint_of_rank)

lemma checkpoint_before_handoff:
  "sorted_events log \<Longrightarrow> checkpoint_rank st < handoff_rank a \<Longrightarrow>
     precedes (checkpoint_of st) (handoff_of a) log"
  using precedes_by_rank [of log "checkpoint_of st" "checkpoint_rank st" "handoff_of a" "handoff_rank a"]
  by (simp add: handoff_of_rank checkpoint_of_rank)

lemma action_before_handoff:
  "sorted_events log \<Longrightarrow> action_rank a < handoff_rank a' \<Longrightarrow>
     precedes (action_of a) (handoff_of a') log"
  using precedes_by_rank [of log "action_of a" "action_rank a" "handoff_of a'" "handoff_rank a'"]
  by (simp add: action_of_rank handoff_of_rank)

lemma handoff_before_checkpoint:
  "sorted_events log \<Longrightarrow> handoff_rank a < checkpoint_rank st \<Longrightarrow>
     precedes (handoff_of a) (checkpoint_of st) log"
  using precedes_by_rank [of log "handoff_of a" "handoff_rank a" "checkpoint_of st" "checkpoint_rank st"]
  by (simp add: handoff_of_rank checkpoint_of_rank)


end
